theory Spec2Isabelle
  imports Complex_Main "HOL-Library.Sublist"
begin

section \<open>Python values shared by the sync modules\<close>

text \<open>
  A raised Python exception is kept as the two things the code reads from it:
  \<open>type(error).__name__\<close> and \<open>str(error)\<close>. A Python string is kept as the
  bytes of its UTF-8 encoding, one \<open>char\<close> per byte; a character of ASCII is one byte,
  and no byte of a longer sequence is an ASCII byte. Logging calls are left out
  everywhere: they do not change what is returned or what is sent to storage.
\<close>

record py_exn =
  exn_type :: string
  exn_msg :: string

section \<open>Error classification and retry policy (common/base\_processor.py)\<close>

text \<open>
  \<open>str.lower()\<close>. The letters A..Z become a..z. Two code points outside ASCII have
  an ASCII letter in their lowercase: U+212A KELVIN SIGN (bytes e2 84 aa) becomes \<open>k\<close>,
  and U+0130 LATIN CAPITAL LETTER I WITH DOT ABOVE (bytes c4 b0) becomes \<open>i\<close> followed
  by U+0307 (bytes cc 87). Every other code point outside ASCII lowercases to code points
  outside ASCII and is kept as it is: that changes no test for a keyword made of ASCII
  characters, and the code reads the lowercased strings through such tests only.
\<close>

definition lower_char :: "char \<Rightarrow> char" where
  "lower_char c =
     (let n = (of_char c :: nat)
      in if 65 \<le> n \<and> n \<le> 90 then char_of (n + 32) else c)"

definition starts_with_bytes :: "nat list \<Rightarrow> string \<Rightarrow> bool" where
  "starts_with_bytes bytes s = (map of_char (take (length bytes) s) = bytes)"

function lower :: "string \<Rightarrow> string" where
  "lower [] = []"
| "lower (c # cs) =
     (if starts_with_bytes [0xe2, 0x84, 0xaa] (c # cs) then CHR ''k'' # lower (drop 2 cs)
      else if starts_with_bytes [0xc4, 0xb0] (c # cs)
      then CHR ''i'' # char_of (0xcc :: nat) # char_of (0x87 :: nat) # lower (drop 1 cs)
      else lower_char c # lower cs)"
  by pat_completeness auto
termination
  by (relation "measure length") auto

text \<open>Python's \<open>sub in s\<close> on strings: \<open>sub\<close> occurs as a contiguous substring.\<close>

fun py_in :: "string \<Rightarrow> string \<Rightarrow> bool" where
  "py_in sub [] = (sub = [])"
| "py_in sub (c # cs) = (prefix sub (c # cs) \<or> py_in sub cs)"

text \<open>\<open>any(keyword in error_str for keyword in [...])\<close>\<close>

definition any_keyword :: "string list \<Rightarrow> string \<Rightarrow> bool" where
  "any_keyword keywords error_str = list_ex (\<lambda>keyword. py_in keyword error_str) keywords"

definition classify_error :: "py_exn \<Rightarrow> string" where
  "classify_error error =
     (let error_str = lower (exn_msg error);
          error_type = exn_type error
      in if py_in ''chunkedencodingerror'' (lower error_type)
            \<or> py_in ''chunked encoding'' error_str
         then ''CHUNKED_ENCODING''
         else if any_keyword [''timeout'', ''timed out''] error_str
         then ''TIMEOUT''
         else if any_keyword [''connection'', ''network'', ''unreachable''] error_str
         then ''NETWORK''
         else if any_keyword [''rate limit'', ''too many requests'', ''429''] error_str
         then ''RATE_LIMIT''
         else if any_keyword [''500'', ''502'', ''503'', ''504'', ''server error''] error_str
         then ''SERVER_ERROR''
         else if any_keyword [''unauthorized'', ''forbidden'', ''401'', ''403''] error_str
         then ''AUTH_ERROR''
         else if any_keyword [''not found'', ''404''] error_str
         then ''NOT_FOUND''
         else if any_keyword [''empty'', ''no data''] error_str
         then ''NO_DATA''
         else if py_in ''length mismatch'' error_str
                 \<and> py_in ''expected axis has 0 elements'' error_str
         then ''PANDAS_MISMATCH''
         else if any_keyword [''json'', ''parse'', ''decode'', ''format''] error_str
         then ''DATA_FORMAT_ERROR''
         else if py_in ''database'' error_str
                 \<or> error_type \<in> set [''DatabaseError'', ''OperationalError'']
         then ''DATABASE_ERROR''
         else ''UNKNOWN'')"

definition should_retry :: "string \<Rightarrow> int \<Rightarrow> int \<Rightarrow> bool" where
  "should_retry error_type attempt max_retry =
     (if attempt \<ge> max_retry then False
      else if error_type \<in> set [''AUTH_ERROR'', ''NOT_FOUND'', ''DATA_FORMAT_ERROR'']
      then False
      else if error_type = ''RATE_LIMIT'' \<and> attempt \<ge> 2 then False
      else True)"

text \<open>
  \<open>_get_retry_delay\<close>. Python integers are unbounded. The attempt index comes from
  \<open>range(max_retry)\<close> in both callers, so it is a natural number and
  \<open>2 ** attempt\<close> is an integer power.
\<close>

definition get_retry_delay :: "string \<Rightarrow> int \<Rightarrow> nat \<Rightarrow> int" where
  "get_retry_delay error_type base_delay attempt =
     (if error_type = ''RATE_LIMIT'' then base_delay * (2 ^ attempt) + 5
      else if error_type = ''CHUNKED_ENCODING'' then base_delay + 2
      else if error_type = ''TIMEOUT'' then base_delay + int attempt
      else if error_type = ''NETWORK'' then base_delay * int attempt
      else if error_type = ''SERVER_ERROR'' then base_delay * 2
      else if error_type = ''PANDAS_MISMATCH'' then base_delay * (int attempt + 1)
      else base_delay)"

text \<open>
  The delay table as the specification words it, with the specification's kind names
  mapped to the strings the code returns (EncodingError is CHUNKED\_ENCODING,
  SchemaMismatch is PANDAS\_MISMATCH).
\<close>

definition delayFor_spec :: "string \<Rightarrow> int \<Rightarrow> nat \<Rightarrow> int" where
  "delayFor_spec kind baseDelay attemptIndex =
     (if kind = ''RATE_LIMIT'' then baseDelay * 2 ^ attemptIndex + 5
      else if kind = ''CHUNKED_ENCODING'' then baseDelay + 2
      else if kind = ''TIMEOUT'' then baseDelay + int attemptIndex
      else if kind = ''NETWORK'' then baseDelay * max (int attemptIndex) 1
      else if kind = ''SERVER_ERROR'' then baseDelay * 2
      else if kind = ''PANDAS_MISMATCH'' then baseDelay * (int attemptIndex + 1)
      else baseDelay)"

section \<open>Storage seen from the sync code\<close>

text \<open>
  The sync code reaches storage only by sending statements. Storage is therefore kept as
  two traces: every statement the code set out to run (\<open>attempted\<close>), and the
  statements that ran in a transaction that committed (\<open>committed\<close>). What the database does
  with a statement (an error at connect/begin, at execute or at commit, the row count, the
  elapsed time) is the environment's choice, given as \<open>db_env\<close>.
\<close>

type_synonym price = real

datatype fund_type = OpenFund | MoneyFund | ExchangeFund | QdiiEuropeAmerica | QdiiAsia

text \<open>A fund tuple \<open>(code, name, fund_type, price)\<close>; \<open>price\<close> may be \<open>None\<close>.\<close>

type_synonym fund_rec = "string \<times> string \<times> fund_type \<times> price option"

text \<open>
  A cleaned stock row. Only the two columns the sync code reads are named; the numeric
  columns of the quote are carried along unread and stand as one field.
\<close>

record stock_rec =
  symbol :: "string option"
  datetime :: "string option"
  quote :: "price option"

datatype db_stmt =
    GET_EXISTING_FUND_CODES
  | MARK_FUNDS_DELETED "string set"
  | INSERT_FUNDS_BATCH "(string \<times> string \<times> fund_type \<times> price option \<times> string) list"
  | UPDATE_FUNDS_BATCH "(string \<times> string \<times> price option) list"
  | GET_EXISTING_SYMBOLS
  | UPDATE_STOCK string "stock_rec list"
  | INSERT_STOCK string "stock_rec list"
  | MARK_STOCKS_DELETED string "string set"

datatype exec_result = Rowcount int | ExecRaises py_exn

record db_env =
  begin_error :: "db_stmt \<Rightarrow> py_exn option"
  execute :: "db_stmt \<Rightarrow> exec_result"
  commit_error :: "db_stmt \<Rightarrow> py_exn option"
  elapsed :: "db_stmt \<Rightarrow> real"
  fund_codes_query :: "py_exn + string set"
  stock_symbols_query :: "py_exn + (string \<times> string) list"

record storage =
  attempted :: "db_stmt list"
  committed :: "db_stmt list"

text \<open>
  One statement in its own transaction (\<open>with engine.connect() ... with conn.begin()\<close>,
  or \<open>with engine.begin()\<close>): an error at any of the three points leaves the
  transaction rolled back and is raised to the caller.
\<close>

definition run_tx :: "db_env \<Rightarrow> db_stmt \<Rightarrow> storage \<Rightarrow> (py_exn + int) \<times> storage" where
  "run_tx env stmt db =
     (let db1 = db\<lparr>attempted := attempted db @ [stmt]\<rparr>
      in case begin_error env stmt of
           Some e \<Rightarrow> (Inl e, db1)
         | None \<Rightarrow>
             (case execute env stmt of
                ExecRaises e \<Rightarrow> (Inl e, db1)
              | Rowcount n \<Rightarrow>
                  (case commit_error env stmt of
                     Some e \<Rightarrow> (Inl e, db1)
                   | None \<Rightarrow> (Inr n, db1\<lparr>committed := committed db1 @ [stmt]\<rparr>))))"

text \<open>
  \<open>[xs[i:i + n] for i in range(0, len(xs), n)]\<close> for a positive step \<open>n\<close>. Callers
  test \<open>n = 0\<close> first, where Python's \<open>range\<close> raises ValueError.
\<close>

function batches_of :: "nat \<Rightarrow> 'a list \<Rightarrow> 'a list list" where
  "batches_of n xs = (if n = 0 \<or> xs = [] then [] else take n xs # batches_of n (drop n xs))"
  by pat_completeness auto
termination
  by (relation "measure (\<lambda>(n, xs). length xs)") auto

declare batches_of.simps [simp del]

definition ValueError :: py_exn where
  "ValueError = \<lparr>exn_type = ''ValueError'', exn_msg = []\<rparr>"

definition TypeError :: py_exn where
  "TypeError = \<lparr>exn_type = ''TypeError'', exn_msg = []\<rparr>"

section \<open>Funds: fetching and cleaning (fundsync/data\_processor.py)\<close>

text \<open>
  The five keys of \<open>FUND_TYPES\<close> in common/config.py, in the order of the dict. The
  keys are Chinese names; the constructors of \<open>fund_type\<close> are their English
  meanings: open-end funds, money-market funds, exchange-traded funds, and the two QDII
  kinds (Europe/America, Asia).
\<close>

definition FUND_TYPES :: "fund_type list" where
  "FUND_TYPES = [OpenFund, MoneyFund, ExchangeFund, QdiiEuropeAmerica, QdiiAsia]"

text \<open>
  A cell of the price column, by what the code can observe of it: \<open>notna\<close> is false
  (\<open>Missing\<close>: None or NaN), or \<open>float(val)\<close> returns a number, or it raises.
\<close>

datatype cell = Missing | Floatable price | NotFloatable

fun notna :: "cell \<Rightarrow> bool" where
  "notna Missing = False"
| "notna _ = True"

fun safe_float :: "cell \<Rightarrow> price option" where
  "safe_float (Floatable x) = Some x"
| "safe_float _ = None"

text \<open>
  A row of an upstream table: \<open>row_code\<close> is the value of
  \<open>row.get(k1) or row.get(k2) or ""\<close> for the two code columns, \<open>row_name\<close> the
  same for the two name columns, \<open>row_price\<close> the cell in the price column.
  \<open>has_price_column\<close> says whether \<open>get_price_column\<close> finds a column.
\<close>

record fund_row =
  row_code :: string
  row_name :: string
  row_price :: cell

record fund_frame =
  has_price_column :: bool
  frame_rows :: "fund_row list"

definition extract_fund_values :: "fund_frame \<Rightarrow> fund_type \<Rightarrow> fund_rec list" where
  "extract_fund_values df fund_type =
     (if \<not> has_price_column df then []
      else map (\<lambda>row. (row_code row, row_name row, fund_type, safe_float (row_price row)))
             (filter (\<lambda>row. row_code row \<noteq> [] \<and> row_name row \<noteq> [])
                (filter (\<lambda>row. notna (row_price row)) (frame_rows df))))"

text \<open>
  What one call of an upstream function does: raise, return None, or return a table
  (possibly with no rows). The function is called once per attempt; its answer may differ
  from attempt to attempt, so it is given as a function of the attempt index.
\<close>

datatype 'f api_result = ApiRaises py_exn | ApiNone | ApiFrame 'f

text \<open>
  \<open>safe_get_data\<close>: the loop \<open>for attempt in range(max_retry)\<close>. The last argument
  counts the iterations left. \<open>time.sleep\<close> between attempts is left out.
\<close>

fun safe_get_loop ::
  "(nat \<Rightarrow> fund_frame api_result) \<Rightarrow> nat \<Rightarrow> nat \<Rightarrow> nat \<Rightarrow> fund_frame option" where
  "safe_get_loop get_func max_retry attempt 0 = None"
| "safe_get_loop get_func max_retry attempt (Suc remaining) =
     (case get_func attempt of
        ApiFrame df \<Rightarrow>
          if frame_rows df \<noteq> [] then Some df
          else safe_get_loop get_func max_retry (Suc attempt) remaining
      | ApiNone \<Rightarrow> safe_get_loop get_func max_retry (Suc attempt) remaining
      | ApiRaises e \<Rightarrow>
          (let error_type = classify_error e
           in if \<not> should_retry error_type (int attempt) (int max_retry) then None
              else if int attempt < int max_retry - 1
              then safe_get_loop get_func max_retry (Suc attempt) remaining
              else None))"

definition safe_get_data :: "(nat \<Rightarrow> fund_frame api_result) \<Rightarrow> nat \<Rightarrow> fund_frame option" where
  "safe_get_data get_func max_retry = safe_get_loop get_func max_retry 0 max_retry"

text \<open>
  The per-source body of \<open>collect_all_fund_data\<close>: tables above 5000 rows are cleaned
  in chunks.
\<close>

definition clean_fund_frame :: "fund_frame \<Rightarrow> fund_type \<Rightarrow> fund_rec list" where
  "clean_fund_frame df fund_name =
     (if length (frame_rows df) > 5000
      then concat (map (\<lambda>chunk. extract_fund_values (df\<lparr>frame_rows := chunk\<rparr>) fund_name)
                    (batches_of 5000 (frame_rows df)))
      else extract_fund_values df fund_name)"

text \<open>
  \<open>fund_data\<close> is a dict from fund type to records, kept as an association list in
  insertion order. The loop state is \<open>(fund_data, success_types)\<close>.
\<close>

type_synonym fund_data = "(fund_type \<times> fund_rec list) list"

definition dict_set :: "('k \<times> 'v) list \<Rightarrow> 'k \<Rightarrow> 'v \<Rightarrow> ('k \<times> 'v) list" where
  "dict_set d k v =
     (if k \<in> fst ` set d then map (\<lambda>(k', v'). if k' = k then (k', v) else (k', v')) d
      else d @ [(k, v)])"

fun collect_loop ::
  "(fund_type \<Rightarrow> nat \<Rightarrow> fund_frame api_result) \<Rightarrow> nat \<Rightarrow> fund_type list
     \<Rightarrow> fund_data \<times> fund_type set \<Rightarrow> fund_data \<times> fund_type set" where
  "collect_loop api max_retry [] st = st"
| "collect_loop api max_retry (fund_name # tasks) (fund_data, success_types) =
     (case safe_get_data (api fund_name) max_retry of
        None \<Rightarrow> collect_loop api max_retry tasks (fund_data, success_types)
      | Some df \<Rightarrow>
          if frame_rows df = [] then collect_loop api max_retry tasks (fund_data, success_types)
          else (let records = clean_fund_frame df fund_name
                in if records \<noteq> []
                   then collect_loop api max_retry tasks
                          (dict_set fund_data fund_name records, insert fund_name success_types)
                   else collect_loop api max_retry tasks (fund_data, success_types)))"

definition collect_all_fund_data ::
  "(fund_type \<Rightarrow> nat \<Rightarrow> fund_frame api_result) \<Rightarrow> nat \<Rightarrow> fund_type list \<Rightarrow> fund_data option" where
  "collect_all_fund_data api max_retry fund_tasks =
     (let required_types = set FUND_TYPES;
          (fund_data, success_types) = collect_loop api max_retry fund_tasks ([], {})
      in if success_types = required_types then Some fund_data else None)"

section \<open>Funds: cross-source merge and diff (fundsync/data\_processor.py)\<close>

text \<open>
  Step one of \<open>integrate_fund_data\<close>, for one fund type. The state is
  \<open>(domestic_funds, domestic_codes, empty_price_codes)\<close>. The function also
  deletes each processed entry from the caller's dict; nothing reads the dict afterwards,
  and the deletion is left out.
\<close>

fun merge_domestic ::
  "fund_type \<Rightarrow> fund_rec list \<Rightarrow> fund_rec list \<times> string set \<times> string set
     \<Rightarrow> fund_rec list \<times> string set \<times> string set" where
  "merge_domestic fund_type [] st = st"
| "merge_domestic fund_type ((code, name, _, price) # type_records)
       (domestic_funds, domestic_codes, empty_price_codes) =
     (if price \<noteq> None
      then merge_domestic fund_type type_records
             (domestic_funds @ [(code, name, fund_type, price)], insert code domestic_codes,
              empty_price_codes)
      else merge_domestic fund_type type_records
             (domestic_funds, domestic_codes, insert code empty_price_codes))"

text \<open>
  Step two, for one QDII type. The state is
  \<open>(qdii_funds, domestic_codes, qdii_supplemented, qdii_skipped)\<close>.
\<close>

fun merge_qdii ::
  "fund_type \<Rightarrow> fund_rec list \<Rightarrow> fund_rec list \<times> string set \<times> nat \<times> nat
     \<Rightarrow> fund_rec list \<times> string set \<times> nat \<times> nat" where
  "merge_qdii fund_type [] st = st"
| "merge_qdii fund_type ((code, name, _, price) # type_records)
       (qdii_funds, domestic_codes, qdii_supplemented, qdii_skipped) =
     (if code \<notin> domestic_codes
      then merge_qdii fund_type type_records
             (qdii_funds @ [(code, name, fund_type, price)], insert code domestic_codes,
              qdii_supplemented + 1, qdii_skipped)
      else merge_qdii fund_type type_records
             (qdii_funds, domestic_codes, qdii_supplemented, qdii_skipped + 1))"

text \<open>\<open>for fund_type in [...]: if fund_type in fund_data: ...\<close>\<close>

fun over_types ::
  "(fund_type \<Rightarrow> fund_rec list \<Rightarrow> 's \<Rightarrow> 's) \<Rightarrow> fund_data \<Rightarrow> fund_type list \<Rightarrow> 's \<Rightarrow> 's" where
  "over_types body fund_data [] st = st"
| "over_types body fund_data (fund_type # rest) st =
     (case map_of fund_data fund_type of
        Some type_records \<Rightarrow> over_types body fund_data rest (body fund_type type_records st)
      | None \<Rightarrow> over_types body fund_data rest st)"

definition domestic_types :: "fund_type list" where
  "domestic_types = [ExchangeFund, OpenFund, MoneyFund]"

definition qdii_types :: "fund_type list" where
  "qdii_types = [QdiiEuropeAmerica, QdiiAsia]"

definition integrate_fund_data :: "fund_data \<Rightarrow> fund_rec list \<times> string set" where
  "integrate_fund_data fund_data =
     (let (domestic_funds, domestic_codes, empty_price_codes) =
            over_types merge_domestic fund_data domestic_types ([], {}, {});
          (qdii_funds, domestic_codes', qdii_supplemented, qdii_skipped) =
            over_types merge_qdii fund_data qdii_types ([], domestic_codes, 0, 0);
          final_funds = domestic_funds @ qdii_funds
      in (final_funds, domestic_codes'))"

definition analyze_data_differences ::
  "fund_rec list \<Rightarrow> string set \<Rightarrow> string set \<times> string set \<times> string set" where
  "analyze_data_differences final_funds existing_codes =
     (let final_codes = set (map fst final_funds);
          new_codes = final_codes - existing_codes;
          removed_codes = existing_codes - final_codes;
          update_codes = final_codes \<inter> existing_codes
      in (new_codes, removed_codes, update_codes))"

section \<open>Funds: storage operations (fundsync/db\_operations.py)\<close>

text \<open>
  Durations are differences of \<open>time.time()\<close>. The time of one statement is the
  environment's \<open>elapsed\<close>; the wall-clock time of a pool run is taken as the sum of
  its batches' times. Only the value \<open>0.0\<close> returned for an empty input is
  independent of the clock.
\<close>

record sync_config =
  cfg_batch_size :: nat
  cfg_max_workers :: nat
  cfg_max_retry :: nat
  cfg_retry_delay :: int

definition get_existing_fund_codes :: "db_env \<Rightarrow> storage \<Rightarrow> (py_exn + string set) \<times> storage" where
  "get_existing_fund_codes env db =
     (fund_codes_query env, db\<lparr>attempted := attempted db @ [GET_EXISTING_FUND_CODES]\<rparr>)"

definition mark_funds_deleted :: "db_env \<Rightarrow> string set \<Rightarrow> storage \<Rightarrow> (py_exn + real) \<times> storage" where
  "mark_funds_deleted env fund_codes db =
     (if fund_codes = {} then (Inr 0, db)
      else (case run_tx env (MARK_FUNDS_DELETED fund_codes) db of
              (Inl e, db') \<Rightarrow> (Inl e, db')
            | (Inr n, db') \<Rightarrow> (Inr (elapsed env (MARK_FUNDS_DELETED fund_codes)), db')))"

definition batch_insert_worker :: "db_env \<Rightarrow> fund_rec list \<Rightarrow> storage \<Rightarrow> (py_exn + real) \<times> storage" where
  "batch_insert_worker env batch_data db =
     (let insert_data = map (\<lambda>(code, name, fund_type, price). (code, name, fund_type, price, ''L''))
                          batch_data
      in case run_tx env (INSERT_FUNDS_BATCH insert_data) db of
           (Inl e, db') \<Rightarrow> (Inl e, db')
         | (Inr n, db') \<Rightarrow> (Inr (elapsed env (INSERT_FUNDS_BATCH insert_data)), db'))"

definition batch_update_worker :: "db_env \<Rightarrow> fund_rec list \<Rightarrow> storage \<Rightarrow> (py_exn + real) \<times> storage" where
  "batch_update_worker env batch_data db =
     (let update_data = map (\<lambda>(code, name, _, price). (code, name, price)) batch_data
      in case run_tx env (UPDATE_FUNDS_BATCH update_data) db of
           (Inl e, db') \<Rightarrow> (Inl e, db')
         | (Inr n, db') \<Rightarrow> (Inr (elapsed env (UPDATE_FUNDS_BATCH update_data)), db'))"

text \<open>
  The thread pool of \<open>insert_new_funds\<close> and \<open>update_existing_funds\<close>. Every batch
  is submitted before any result is read, and leaving the \<open>with ThreadPoolExecutor\<close>
  block waits for all of them, so every batch runs even when one has raised. The batches
  are taken in submission order. The result is the first exception met (which the
  \<open>as_completed\<close> loop re-raises) and the summed durations.
\<close>

fun run_fund_pool ::
  "(fund_rec list \<Rightarrow> storage \<Rightarrow> (py_exn + real) \<times> storage) \<Rightarrow> fund_rec list list \<Rightarrow> storage
     \<Rightarrow> (py_exn option \<times> real) \<times> storage" where
  "run_fund_pool worker [] db = ((None, 0), db)"
| "run_fund_pool worker (batch # batches) db =
     (case worker batch db of
        (r, db1) \<Rightarrow>
          (case run_fund_pool worker batches db1 of
             ((err, total_duration), db2) \<Rightarrow>
               (case r of
                  Inl e \<Rightarrow> ((Some e, total_duration), db2)
                | Inr duration \<Rightarrow> ((err, duration + total_duration), db2))))"

definition pooled_fund_op ::
  "(fund_rec list \<Rightarrow> storage \<Rightarrow> (py_exn + real) \<times> storage) \<Rightarrow> sync_config \<Rightarrow> fund_rec list
     \<Rightarrow> storage \<Rightarrow> (py_exn + real) \<times> storage" where
  "pooled_fund_op worker cfg funds db =
     (if funds = [] then (Inr 0, db)
      else if cfg_batch_size cfg = 0 \<or> cfg_max_workers cfg = 0 then (Inl ValueError, db)
      else (case run_fund_pool worker (batches_of (cfg_batch_size cfg) funds) db of
              ((Some e, total_duration), db') \<Rightarrow> (Inl e, db')
            | ((None, total_duration), db') \<Rightarrow> (Inr total_duration, db')))"

definition insert_new_funds ::
  "sync_config \<Rightarrow> db_env \<Rightarrow> fund_rec list \<Rightarrow> storage \<Rightarrow> (py_exn + real) \<times> storage" where
  "insert_new_funds cfg env funds db = pooled_fund_op (batch_insert_worker env) cfg funds db"

definition update_existing_funds ::
  "sync_config \<Rightarrow> db_env \<Rightarrow> fund_rec list \<Rightarrow> storage \<Rightarrow> (py_exn + real) \<times> storage" where
  "update_existing_funds cfg env funds db = pooled_fund_op (batch_update_worker env) cfg funds db"

definition execute_batch_updates ::
  "sync_config \<Rightarrow> db_env \<Rightarrow> fund_rec list \<Rightarrow> string set \<Rightarrow> string set \<Rightarrow> string set \<Rightarrow> storage
     \<Rightarrow> (py_exn + real) \<times> storage" where
  "execute_batch_updates cfg env final_funds new_codes removed_codes update_codes db =
     (case mark_funds_deleted env removed_codes db of
        (Inl e, db1) \<Rightarrow> (Inl e, db1)
      | (Inr d1, db1) \<Rightarrow>
          (let new_funds = filter (\<lambda>f. fst f \<in> new_codes) final_funds
           in case insert_new_funds cfg env new_funds db1 of
                (Inl e, db2) \<Rightarrow> (Inl e, db2)
              | (Inr d2, db2) \<Rightarrow>
                  (let update_funds = filter (\<lambda>f. fst f \<in> update_codes) final_funds
                   in case update_existing_funds cfg env update_funds db2 of
                        (Inl e, db3) \<Rightarrow> (Inl e, db3)
                      | (Inr d3, db3) \<Rightarrow> (Inr (d1 + d2 + d3), db3))))"

section \<open>Funds: the run (fundsync/index.py)\<close>

text \<open>
  What a runner hands back: Python's \<open>None\<close>, or one of the two dict shapes the code
  builds, \<open>{'success': True, 'result': {'processed': p, 'skipped': s}}\<close> and
  \<open>{'success': False, 'error': text}\<close>. The error texts are \<open>str(e)\<close> of an
  exception or fixed sentences.
\<close>

datatype err_text = StrOf py_exn | FundTaskFailed | StockTaskFailed

datatype run_result = PyNone | SuccessDict nat nat | FailureDict err_text

fun truthy :: "run_result \<Rightarrow> bool" where
  "truthy PyNone = False"
| "truthy _ = True"

text \<open>A result object: one of the two dicts, not \<open>None\<close>.\<close>

fun is_result_dict :: "run_result \<Rightarrow> bool" where
  "is_result_dict PyNone = False"
| "is_result_dict (SuccessDict processed skipped) = True"
| "is_result_dict (FailureDict msg) = True"

datatype engine_result = EngineRaises py_exn | EngineNone | EngineOk

record fund_env =
  fund_engine :: engine_result
  fund_tasks :: "fund_type list"
  fund_api :: "fund_type \<Rightarrow> nat \<Rightarrow> fund_frame api_result"
  fund_db :: db_env
  FUND_CONFIG :: sync_config

definition fund_sync_task_runner :: "fund_env \<Rightarrow> storage \<Rightarrow> (py_exn + run_result) \<times> storage" where
  "fund_sync_task_runner env db =
     (case fund_engine env of
        EngineRaises e \<Rightarrow> (Inl e, db)
      | EngineNone \<Rightarrow> (Inr PyNone, db)
      | EngineOk \<Rightarrow>
          (case collect_all_fund_data (fund_api env) (cfg_max_retry (FUND_CONFIG env)) (fund_tasks env) of
             None \<Rightarrow> (Inr PyNone, db)
           | Some fund_data \<Rightarrow>
               if fund_data = [] then (Inr PyNone, db)
               else (let (final_funds, _) = integrate_fund_data fund_data
                     in case get_existing_fund_codes (fund_db env) db of
                          (Inl e, db1) \<Rightarrow> (Inl e, db1)
                        | (Inr existing_codes, db1) \<Rightarrow>
                            (let (new_codes, removed_codes, update_codes) =
                                   analyze_data_differences final_funds existing_codes
                             in case execute_batch_updates (FUND_CONFIG env) (fund_db env)
                                       final_funds new_codes removed_codes update_codes db1 of
                                  (Inl e, db2) \<Rightarrow> (Inl e, db2)
                                | (Inr d, db2) \<Rightarrow> (Inr PyNone, db2)))))"

text \<open>\<open>run_fundsync_task\<close> of task/index.py: the caller of the funds runner.\<close>

definition run_fundsync_task :: "fund_env \<Rightarrow> storage \<Rightarrow> run_result \<times> storage" where
  "run_fundsync_task env db =
     (case fund_sync_task_runner env db of
        (Inl e, db') \<Rightarrow> (FailureDict (StrOf e), db')
      | (Inr result, db') \<Rightarrow>
          if truthy result then (result, db') else (FailureDict FundTaskFailed, db'))"

section \<open>Stocks: storage operations (stocksync/db\_operations.py)\<close>

text \<open>
  \<open>get_existing_stock_symbols_by_market\<close>: the rows are \<open>(symbol, market)\<close>; the
  result is used only through \<open>existing_symbols_map.get(market_name, set())\<close>, so it
  is the function from a market to its set of symbols. An exception is caught and the
  map built so far (here: the empty one) is returned.
\<close>

definition get_existing_stock_symbols_by_market ::
  "db_env \<Rightarrow> storage \<Rightarrow> (string \<Rightarrow> string set) \<times> storage" where
  "get_existing_stock_symbols_by_market env db =
     (let db' = db\<lparr>attempted := attempted db @ [GET_EXISTING_SYMBOLS]\<rparr>
      in case stock_symbols_query env of
           Inl e \<Rightarrow> (\<lambda>market. {}, db')
         | Inr rows \<Rightarrow> (\<lambda>market. set (map fst (filter (\<lambda>(s, m). m = market) rows)), db'))"

text \<open>
  The row-by-row fallback of the update worker, inside the batch's transaction. The state
  is (statements sent, statements that were executed, \<open>failed_symbols\<close>).
\<close>

fun update_rows_one_by_one ::
  "db_env \<Rightarrow> string \<Rightarrow> stock_rec list \<Rightarrow> db_stmt list \<times> db_stmt list \<times> string option list
     \<Rightarrow> db_stmt list \<times> db_stmt list \<times> string option list" where
  "update_rows_one_by_one env market_name [] st = st"
| "update_rows_one_by_one env market_name (record # rest) (sent, applied, failed_symbols) =
     (case execute env (UPDATE_STOCK market_name [record]) of
        Rowcount n \<Rightarrow>
          update_rows_one_by_one env market_name rest
            (sent @ [UPDATE_STOCK market_name [record]], applied @ [UPDATE_STOCK market_name [record]],
             if n = 0 then failed_symbols @ [symbol record] else failed_symbols)
      | ExecRaises e \<Rightarrow>
          update_rows_one_by_one env market_name rest
            (sent @ [UPDATE_STOCK market_name [record]], applied, failed_symbols @ [symbol record]))"

text \<open>
  \<open>update_stock_records_batch\<close> returns \<open>(count, duration, error)\<close> and appends to
  the shared list \<open>failed_symbols\<close>. The test on the bulk result,
  \<open>i < len(batch_data) and not hasattr(result, 'rowcount') or result.rowcount == 0\<close>,
  is \<open>result.rowcount == 0\<close> for a result that has a row count. The batch number is
  used for logging only.
\<close>

definition update_stock_records_batch ::
  "db_env \<Rightarrow> stock_rec list \<Rightarrow> string \<Rightarrow> storage \<times> string option list
     \<Rightarrow> (nat \<times> real \<times> py_exn option) \<times> storage \<times> string option list" where
  "update_stock_records_batch env batch_records market_name st =
     (case st of (db, failed_symbols) \<Rightarrow>
        (let stmt = UPDATE_STOCK market_name batch_records;
             duration = elapsed env stmt;
             db1 = db\<lparr>attempted := attempted db @ [stmt]\<rparr>
         in case begin_error env stmt of
              Some e \<Rightarrow> ((0, duration, Some e), db1, failed_symbols)
            | None \<Rightarrow>
                (case (case execute env stmt of
                         Rowcount n \<Rightarrow>
                           ([], [stmt],
                            if n = 0 then failed_symbols @ map symbol batch_records
                            else failed_symbols)
                       | ExecRaises e \<Rightarrow>
                           update_rows_one_by_one env market_name batch_records
                             ([], [], failed_symbols)) of
                   (sent, applied, failed1) \<Rightarrow>
                     (let db2 = db1\<lparr>attempted := attempted db1 @ sent\<rparr>
                      in case commit_error env stmt of
                           Some e \<Rightarrow> ((0, duration, Some e), db2, failed1)
                         | None \<Rightarrow>
                             ((length batch_records, duration, None),
                              db2\<lparr>committed := committed db2 @ applied\<rparr>, failed1)))))"

fun insert_rows_one_by_one ::
  "db_env \<Rightarrow> string \<Rightarrow> stock_rec list \<Rightarrow> db_stmt list \<times> db_stmt list
     \<Rightarrow> db_stmt list \<times> db_stmt list" where
  "insert_rows_one_by_one env market_name [] st = st"
| "insert_rows_one_by_one env market_name (record # rest) (sent, applied) =
     (case execute env (INSERT_STOCK market_name [record]) of
        Rowcount n \<Rightarrow>
          insert_rows_one_by_one env market_name rest
            (sent @ [INSERT_STOCK market_name [record]], applied @ [INSERT_STOCK market_name [record]])
      | ExecRaises e \<Rightarrow>
          insert_rows_one_by_one env market_name rest
            (sent @ [INSERT_STOCK market_name [record]], applied))"

definition insert_stock_records_batch ::
  "db_env \<Rightarrow> stock_rec list \<Rightarrow> string \<Rightarrow> storage \<Rightarrow> (nat \<times> real \<times> py_exn option) \<times> storage" where
  "insert_stock_records_batch env batch_records market_name db =
     (let stmt = INSERT_STOCK market_name batch_records;
          duration = elapsed env stmt;
          db1 = db\<lparr>attempted := attempted db @ [stmt]\<rparr>
      in case begin_error env stmt of
           Some e \<Rightarrow> ((0, duration, Some e), db1)
         | None \<Rightarrow>
             (case (case execute env stmt of
                      Rowcount n \<Rightarrow> ([], [stmt])
                    | ExecRaises e \<Rightarrow> insert_rows_one_by_one env market_name batch_records ([], [])) of
                (sent, applied) \<Rightarrow>
                  (let db2 = db1\<lparr>attempted := attempted db1 @ sent\<rparr>
                   in case commit_error env stmt of
                        Some e \<Rightarrow> ((0, duration, Some e), db2)
                      | None \<Rightarrow>
                          ((length batch_records, duration, None),
                           db2\<lparr>committed := committed db2 @ applied\<rparr>))))"

text \<open>\<open>mark_stocks_as_deleted\<close> returns one integer on every path.\<close>

definition mark_stocks_as_deleted :: "db_env \<Rightarrow> string set \<Rightarrow> string \<Rightarrow> storage \<Rightarrow> int \<times> storage" where
  "mark_stocks_as_deleted env symbols_to_delete market_name db =
     (if symbols_to_delete = {} then (0, db)
      else (case run_tx env (MARK_STOCKS_DELETED market_name symbols_to_delete) db of
              (Inl e, db') \<Rightarrow> (0, db')
            | (Inr count, db') \<Rightarrow> (count, db')))"

section \<open>Stocks: batch application (stocksync/data\_processor.py)\<close>

text \<open>
  The two thread pools of \<open>process_market_records\<close>, batches taken in submission
  order. A batch that returns an error adds nothing to the totals. The totals are sums, so
  they do not depend on the order in which the workers finish.
\<close>

fun run_update_pool ::
  "db_env \<Rightarrow> string \<Rightarrow> stock_rec list list \<Rightarrow> storage \<times> string option list
     \<Rightarrow> (nat \<times> real) \<times> storage \<times> string option list" where
  "run_update_pool env market_name [] st = ((0, 0), st)"
| "run_update_pool env market_name (batch # batches) st =
     (case update_stock_records_batch env batch market_name st of
        ((updated, duration, error), st1) \<Rightarrow>
          (case run_update_pool env market_name batches st1 of
             ((total_updated, total_update_duration), st2) \<Rightarrow>
               if error = None
               then ((updated + total_updated, duration + total_update_duration), st2)
               else ((total_updated, total_update_duration), st2)))"

fun run_insert_pool ::
  "db_env \<Rightarrow> string \<Rightarrow> stock_rec list list \<Rightarrow> storage \<Rightarrow> (nat \<times> real) \<times> storage" where
  "run_insert_pool env market_name [] db = ((0, 0), db)"
| "run_insert_pool env market_name (batch # batches) db =
     (case insert_stock_records_batch env batch market_name db of
        ((inserted, duration, error), db1) \<Rightarrow>
          (case run_insert_pool env market_name batches db1 of
             ((total_inserted, total_insert_duration), db2) \<Rightarrow>
               if error = None
               then ((inserted + total_inserted, duration + total_insert_duration), db2)
               else ((total_inserted, total_insert_duration), db2)))"

record market_result =
  r_updated :: nat
  r_update_time :: real
  r_inserted :: nat
  r_insert_time :: real
  r_deleted :: int
  r_delete_time :: real
  r_failed_updates :: "string option list"

text \<open>
  \<open>deleted_count, del_duration = mark_stocks_as_deleted(...)\<close> unpacks the returned
  integer as a pair. A Python int is not iterable: the assignment raises TypeError.
\<close>

definition unpack_pair_of_int :: "int \<Rightarrow> py_exn + int \<times> real" where
  "unpack_pair_of_int count = Inl TypeError"

text \<open>
  \<open>ThreadPoolExecutor(max_workers=0)\<close> and \<open>range(0, n, 0)\<close> raise ValueError; both
  are evaluated for the update pool before any batch is sent.
\<close>

definition process_market_records ::
  "db_env \<Rightarrow> string \<Rightarrow> stock_rec list \<Rightarrow> stock_rec list \<Rightarrow> string set \<Rightarrow> nat \<Rightarrow> nat \<Rightarrow> storage
     \<Rightarrow> (py_exn + market_result) \<times> storage" where
  "process_market_records env market_name exist_records new_records removed_symbols
       batch_size concurrency db =
     (if concurrency = 0 \<or> batch_size = 0 then (Inl ValueError, db)
      else
        (case run_update_pool env market_name (batches_of batch_size exist_records) (db, []) of
           ((total_updated, total_update_duration), db1, failed_update_symbols) \<Rightarrow>
             (case (if new_records \<noteq> []
                    then run_insert_pool env market_name (batches_of batch_size new_records) db1
                    else ((0, 0), db1)) of
                ((total_inserted, total_insert_duration), db2) \<Rightarrow>
                  (if removed_symbols \<noteq> {}
                   then (case mark_stocks_as_deleted env removed_symbols market_name db2 of
                           (count, db3) \<Rightarrow>
                             (case unpack_pair_of_int count of
                                Inl e \<Rightarrow> (Inl e, db3)
                              | Inr (deleted_count, del_duration) \<Rightarrow>
                                  (Inr \<lparr>r_updated = total_updated, r_update_time = total_update_duration,
                                        r_inserted = total_inserted, r_insert_time = total_insert_duration,
                                        r_deleted = deleted_count, r_delete_time = del_duration,
                                        r_failed_updates = failed_update_symbols\<rparr>, db3)))
                   else (Inr \<lparr>r_updated = total_updated, r_update_time = total_update_duration,
                              r_inserted = total_inserted, r_insert_time = total_insert_duration,
                              r_deleted = 0, r_delete_time = 0,
                              r_failed_updates = failed_update_symbols\<rparr>, db2)))))"

section \<open>Stocks: fetching, diff and the run (stocksync/data\_processor.py, stocksync/index.py)\<close>

text \<open>
  The message of the \<open>ValueError\<close> raised for empty data is a Chinese sentence; it is
  kept as its UTF-8 bytes. It has no ASCII letter, so \<open>classify_error\<close> sees no keyword.
\<close>

definition empty_data_error :: py_exn where
  "empty_data_error =
     \<lparr>exn_type = ''ValueError'',
      exn_msg = map char_of
        [0xe8, 0x8e, 0xb7, 0xe5, 0x8f, 0x96, 0xe5, 0x88, 0xb0, 0xe7, 0xa9, 0xba, 0xe6, 0x95,
         0xb0, 0xe6, 0x8d, 0xae, 0xe6, 0x88, 0x96, 0xe6, 0x97, 0xa0, 0xe6, 0x95, 0x88, 0xe6,
         0x95, 0xb0, 0xe6, 0x8d, 0xae :: nat]\<rparr>"

text \<open>
  Each upstream call of \<open>safely_get_market_data\<close> runs between
  \<open>signal.alarm(timeout)\<close> and \<open>signal.alarm(0)\<close>. No handler for SIGALRM is
  installed anywhere, so a call that is still running when the alarm goes off ends the
  process: nothing is raised, nothing is returned, no later statement runs. Whether a
  call answers in time is the environment's choice. A run therefore stops early in one of
  two ways: an exception travelling up the stack, or the process being killed. The
  process is taken to run on a Unix system, where \<open>signal.alarm\<close> exists.
\<close>

datatype timed_call = InTime "stock_rec list api_result" | OutlastsAlarm

datatype stop = Raised py_exn | KilledByAlarm

text \<open>
  \<open>safely_get_market_data\<close>: the loop \<open>for attempt in range(max_retry)\<close>.
  \<open>time.sleep\<close> is left out. After a retryable error the loop goes on whether or not
  it slept.
\<close>

fun market_get_loop ::
  "(nat \<Rightarrow> timed_call) \<Rightarrow> nat \<Rightarrow> nat \<Rightarrow> nat \<Rightarrow> stop + stock_rec list option" where
  "market_get_loop get_data_func max_retry attempt 0 = Inr None"
| "market_get_loop get_data_func max_retry attempt (Suc remaining) =
     (case get_data_func attempt of
        OutlastsAlarm \<Rightarrow> Inl KilledByAlarm
      | InTime answer \<Rightarrow>
          (case (case answer of
                   ApiRaises e \<Rightarrow> Inl e
                 | ApiNone \<Rightarrow> Inl empty_data_error
                 | ApiFrame data \<Rightarrow>
                     if length data = 0 then Inl empty_data_error else Inr data) of
             Inr data \<Rightarrow> Inr (Some data)
           | Inl e \<Rightarrow>
               (let error_type = classify_error e
                in if \<not> should_retry error_type (int attempt) (int max_retry) then Inr None
                   else market_get_loop get_data_func max_retry (Suc attempt) remaining)))"

definition safely_get_market_data ::
  "(nat \<Rightarrow> timed_call) \<Rightarrow> nat \<Rightarrow> stop + stock_rec list option" where
  "safely_get_market_data get_data_func max_retry =
     market_get_loop get_data_func max_retry 0 max_retry"

text \<open>
  One entry of \<open>market_configs\<close>. \<open>clean_func\<close> is \<open>None\<close> or a function that
  returns the cleaned rows or raises. \<open>market_open\<close> is the value of
  \<open>check_market_open_status(conf["check_open_func"], 2)\<close> when the run looks at the
  clock.
\<close>

record market_config =
  conf_market_name :: string
  conf_get_data_func :: "nat \<Rightarrow> timed_call"
  conf_clean_func :: "(stock_rec list \<Rightarrow> py_exn + stock_rec list) option"
  conf_market_open :: bool
  conf_concurrency :: nat

record stock_env =
  processor_ok :: bool
  market_configs :: "market_config list"
  stock_engine :: "py_exn option"
  stock_db :: db_env
  stock_batch_size :: nat
  stock_max_retry :: nat

text \<open>\<open>r["symbol"] in existing_symbols\<close>\<close>

definition symbol_in :: "string set \<Rightarrow> stock_rec \<Rightarrow> bool" where
  "symbol_in existing_symbols r = (case symbol r of Some s \<Rightarrow> s \<in> existing_symbols | None \<Rightarrow> False)"

text \<open>
  The classification of \<open>process_and_sync_stock_data\<close> into
  \<open>(exist_records, new_records, new_symbols)\<close>; tables above 10000 rows go chunk by chunk.
\<close>

definition classify_records ::
  "stock_rec list \<Rightarrow> string set \<Rightarrow> stock_rec list \<times> stock_rec list \<times> string set" where
  "classify_records cleaned existing_symbols =
     (if length cleaned > 10000
      then (let chunks = batches_of 10000 cleaned
            in (concat (map (filter (symbol_in existing_symbols)) chunks),
                concat (map (filter (\<lambda>r. \<not> symbol_in existing_symbols r)) chunks),
                \<Union> (set (map (\<lambda>chunk. set (List.map_filter symbol chunk)) chunks))))
      else (filter (symbol_in existing_symbols) cleaned,
            filter (\<lambda>r. \<not> symbol_in existing_symbols r) cleaned,
            set (List.map_filter symbol cleaned)))"

text \<open>\<open>cleaned_dataframe.dropna(subset=["symbol", "datetime"])\<close>\<close>

definition dropna :: "stock_rec list \<Rightarrow> stock_rec list" where
  "dropna cleaned = filter (\<lambda>r. symbol r \<noteq> None \<and> datetime r \<noteq> None) cleaned"

text \<open>
  The three things \<open>process_and_sync_stock_data\<close> hands to the batch engine:
  \<open>(exist_records, new_records, removed_symbols)\<close>.
\<close>

definition stock_diff ::
  "stock_rec list \<Rightarrow> string set \<Rightarrow> stock_rec list \<times> stock_rec list \<times> string set" where
  "stock_diff cleaned_dataframe existing_symbols =
     (let (exist_records, new_records, new_symbols) =
            classify_records cleaned_dataframe existing_symbols;
          removed_symbols = existing_symbols - new_symbols
      in (exist_records, new_records, removed_symbols))"

definition process_and_sync_stock_data ::
  "stock_env \<Rightarrow> market_config \<Rightarrow> string set \<Rightarrow> storage \<Rightarrow> (stop + unit) \<times> storage" where
  "process_and_sync_stock_data env conf existing_symbols db =
     (case safely_get_market_data (conf_get_data_func conf) (stock_max_retry env) of
        Inl killed \<Rightarrow> (Inl killed, db)
      | Inr None \<Rightarrow> (Inr (), db)
      | Inr (Some raw_dataframe) \<Rightarrow>
          if raw_dataframe = [] then (Inr (), db)
          else (case conf_clean_func conf of
                  None \<Rightarrow> (Inl (Raised TypeError), db)
                | Some f \<Rightarrow>
                    (case f raw_dataframe of
                       Inl e \<Rightarrow> (Inl (Raised e), db)
                     | Inr cleaned0 \<Rightarrow>
                         (case stock_diff (dropna cleaned0) existing_symbols of
                            (exist_records, new_records, removed_symbols) \<Rightarrow>
                              (case process_market_records (stock_db env) (conf_market_name conf)
                                      exist_records new_records removed_symbols
                                      (stock_batch_size env) (conf_concurrency conf) db of
                                 (Inl e, db') \<Rightarrow> (Inl (Raised e), db')
                               | (Inr result, db') \<Rightarrow> (Inr (), db'))))))"

text \<open>
  \<open>collect_all_stock_data\<close>: the loop over the markets, with the state
  \<open>(processed_markets, skipped_markets)\<close>. An exception from one market leaves the
  loop, and so does the end of the process.
\<close>

fun collect_markets ::
  "stock_env \<Rightarrow> (string \<Rightarrow> string set) \<Rightarrow> market_config list \<Rightarrow> nat \<times> nat \<Rightarrow> storage
     \<Rightarrow> (stop + nat \<times> nat) \<times> storage" where
  "collect_markets env existing_symbols_map [] counts db = (Inr counts, db)"
| "collect_markets env existing_symbols_map (conf # confs) (processed_markets, skipped_markets) db =
     (if conf_market_open conf
      then (case process_and_sync_stock_data env conf (existing_symbols_map (conf_market_name conf)) db of
              (Inl e, db') \<Rightarrow> (Inl e, db')
            | (Inr u, db') \<Rightarrow>
                collect_markets env existing_symbols_map confs
                  (processed_markets + 1, skipped_markets) db')
      else collect_markets env existing_symbols_map confs
             (processed_markets, skipped_markets + 1) db)"

definition collect_all_stock_data ::
  "stock_env \<Rightarrow> (string \<Rightarrow> string set) \<Rightarrow> storage \<Rightarrow> (stop + nat \<times> nat) \<times> storage" where
  "collect_all_stock_data env existing_symbols_map db =
     collect_markets env existing_symbols_map (market_configs env) (0, 0) db"

definition RuntimeError :: py_exn where
  "RuntimeError = \<lparr>exn_type = ''RuntimeError'', exn_msg = []\<rparr>"

text \<open>
  \<open>sync_task_runner\<close> of stocksync/index.py. \<open>StockDataProcessor()\<close> raises
  RuntimeError when the data factory cannot be set up. The constructor is called in the
  \<open>try\<close> block and once more in the \<open>finally\<close> block: there an exception is not
  caught and replaces the value being returned.
\<close>

definition stock_sync_task_runner :: "stock_env \<Rightarrow> storage \<Rightarrow> (stop + run_result) \<times> storage" where
  "stock_sync_task_runner env db =
     (if \<not> processor_ok env then (Inl (Raised RuntimeError), db)
      else (case stock_engine env of
              Some e \<Rightarrow> (Inr (FailureDict (StrOf e)), db)
            | None \<Rightarrow>
                (case get_existing_stock_symbols_by_market (stock_db env) db of
                   (existing_symbols_map, db1) \<Rightarrow>
                     (case collect_all_stock_data env existing_symbols_map db1 of
                        (Inl (Raised e), db2) \<Rightarrow> (Inr (FailureDict (StrOf e)), db2)
                      | (Inl KilledByAlarm, db2) \<Rightarrow> (Inl KilledByAlarm, db2)
                      | (Inr (processed, skipped), db2) \<Rightarrow>
                          (Inr (SuccessDict processed skipped), db2)))))"

text \<open>\<open>run_stocksync_task\<close> of task/index.py.\<close>

definition run_stocksync_task :: "stock_env \<Rightarrow> storage \<Rightarrow> (stop + run_result) \<times> storage" where
  "run_stocksync_task env db =
     (case stock_sync_task_runner env db of
        (Inl (Raised e), db') \<Rightarrow> (Inr (FailureDict (StrOf e)), db')
      | (Inl KilledByAlarm, db') \<Rightarrow> (Inl KilledByAlarm, db')
      | (Inr result, db') \<Rightarrow>
          if truthy result then (Inr result, db') else (Inr (FailureDict StockTaskFailed), db'))"

section \<open>The template run of the base class (common/base\_processor.py)\<close>

text \<open>
  \<open>BaseDataProcessor.run\<close> calls four abstract methods; each may raise. They are the
  fields of \<open>processor\<close>. A data source is known by its name; processed data is a list,
  falsy when empty. \<open>elapsed_time\<close> is the value of \<open>get_elapsed_time()\<close>.
\<close>

datatype base_err = FetchFailed string | ProcessingFailed string | NoValidData | RunRaised py_exn

datatype 's base_result = RunSuccess nat real 's | RunFailure base_err

record ('r, 'p, 's) processor =
  get_data_sources :: "py_exn + string list"
  safe_get_data_m :: "string \<Rightarrow> py_exn + 'r option"
  process_data_m :: "'r \<Rightarrow> string \<Rightarrow> py_exn + 'p list"
  sync_to_database_m :: "(string \<times> 'p list) list \<Rightarrow> py_exn + 's"
  elapsed_time :: real

fun run_sources ::
  "('r, 'p, 's) processor \<Rightarrow> string list \<Rightarrow> (string \<times> 'p list) list
     \<Rightarrow> py_exn + (base_err + (string \<times> 'p list) list)" where
  "run_sources P [] all_data = Inr (Inr all_data)"
| "run_sources P (source_name # rest) all_data =
     (case safe_get_data_m P source_name of
        Inl e \<Rightarrow> Inl e
      | Inr None \<Rightarrow> Inr (Inl (FetchFailed source_name))
      | Inr (Some raw_data) \<Rightarrow>
          (case process_data_m P raw_data source_name of
             Inl e \<Rightarrow> Inl e
           | Inr processed_data \<Rightarrow>
               if processed_data \<noteq> []
               then run_sources P rest (dict_set all_data source_name processed_data)
               else Inr (Inl (ProcessingFailed source_name))))"

definition run_body :: "('r, 'p, 's) processor \<Rightarrow> py_exn + 's base_result" where
  "run_body P =
     (case get_data_sources P of
        Inl e \<Rightarrow> Inl e
      | Inr data_sources \<Rightarrow>
          (case run_sources P data_sources [] of
             Inl e \<Rightarrow> Inl e
           | Inr (Inl err) \<Rightarrow> Inr (RunFailure err)
           | Inr (Inr all_data) \<Rightarrow>
               if all_data \<noteq> []
               then (case sync_to_database_m P all_data of
                       Inl e \<Rightarrow> Inl e
                     | Inr sync_result \<Rightarrow>
                         Inr (RunSuccess (length all_data) (elapsed_time P) sync_result))
               else Inr (RunFailure NoValidData)))"

text \<open>\<open>try: ... except Exception as e: return {'success': False, 'error': str(e)}\<close>\<close>

definition run :: "('r, 'p, 's) processor \<Rightarrow> py_exn + 's base_result" where
  "run P = (case run_body P of Inl e \<Rightarrow> Inr (RunFailure (RunRaised e)) | Inr r \<Rightarrow> Inr r)"

section \<open>Notions used in the statements and proofs\<close>

text \<open>
  The invariant of the QDII loop, for the set \<open>D\<close> of codes accepted from the domestic
  sources: the accepted QDII records have pairwise different codes, none of them in
  \<open>D\<close>, and the code set is \<open>D\<close> together with their codes.
\<close>

definition qdii_inv :: "string set \<Rightarrow> fund_rec list \<times> string set \<times> nat \<times> nat \<Rightarrow> bool" where
  "qdii_inv D st = (case st of (qf, codes, n, k) \<Rightarrow>
      distinct (map fst qf) \<and> codes = D \<union> fst ` set qf \<and> D \<inter> fst ` set qf = {})"

text \<open>
  A funds source is usable when its fetch returns a table and cleaning that table leaves
  at least one record: the two tests of \<open>collect_all_fund_data\<close>. An upstream answer
  returns rows when it is a table with at least one row.
\<close>

definition source_usable :: "(nat \<Rightarrow> fund_frame api_result) \<Rightarrow> nat \<Rightarrow> fund_type \<Rightarrow> bool" where
  "source_usable get_func max_retry fund_name =
     (case safe_get_data get_func max_retry of
        None \<Rightarrow> False
      | Some df \<Rightarrow> frame_rows df \<noteq> [] \<and> clean_fund_frame df fund_name \<noteq> [])"

fun returns_rows :: "fund_frame api_result \<Rightarrow> bool" where
  "returns_rows (ApiFrame df) = (frame_rows df \<noteq> [])"
| "returns_rows _ = False"

text \<open>
  A batch's transaction is in order when neither entering nor committing it raises; a
  statement is in order when, besides, executing it does not raise. \<open>ok_total\<close> adds
  up the sizes of the batches whose statement is in order, \<open>tx_total\<close> the sizes of
  those whose transaction is in order. \<open>bulk_executes\<close> says that no batch
  statement raises when executed, so that no worker falls back to row-by-row statements.
  \<open>grows\<close> says that both traces of the storage only gained entries, and
  \<open>marks_kept\<close> that no removal statement for stocks was added to the first trace.
  \<open>fund_insert_stmt\<close> is the statement the funds' insert worker builds for a batch.
\<close>

definition tx_ok :: "db_env \<Rightarrow> db_stmt \<Rightarrow> bool" where
  "tx_ok env stmt = (begin_error env stmt = None \<and> commit_error env stmt = None)"

definition stmt_ok :: "db_env \<Rightarrow> db_stmt \<Rightarrow> bool" where
  "stmt_ok env stmt =
     (tx_ok env stmt \<and> (case execute env stmt of Rowcount n \<Rightarrow> True | ExecRaises e \<Rightarrow> False))"

definition ok_total :: "db_env \<Rightarrow> (stock_rec list \<Rightarrow> db_stmt) \<Rightarrow> stock_rec list list \<Rightarrow> nat" where
  "ok_total env stmt_of batches =
     sum_list (map length (filter (\<lambda>b. stmt_ok env (stmt_of b)) batches))"

definition tx_total :: "db_env \<Rightarrow> (stock_rec list \<Rightarrow> db_stmt) \<Rightarrow> stock_rec list list \<Rightarrow> nat" where
  "tx_total env stmt_of batches =
     sum_list (map length (filter (\<lambda>b. tx_ok env (stmt_of b)) batches))"

definition bulk_executes :: "db_env \<Rightarrow> (stock_rec list \<Rightarrow> db_stmt) \<Rightarrow> stock_rec list list \<Rightarrow> bool" where
  "bulk_executes env stmt_of batches =
     list_all (\<lambda>b. case execute env (stmt_of b) of Rowcount n \<Rightarrow> True | ExecRaises e \<Rightarrow> False)
       batches"

fun is_mark :: "db_stmt \<Rightarrow> bool" where
  "is_mark (MARK_STOCKS_DELETED market_name symbols) = True"
| "is_mark _ = False"

definition marks_kept :: "storage \<Rightarrow> storage \<Rightarrow> bool" where
  "marks_kept db db' = list_all (\<lambda>stmt. \<not> is_mark stmt \<or> stmt \<in> set (attempted db)) (attempted db')"


definition grows :: "storage \<Rightarrow> storage \<Rightarrow> bool" where
  "grows db db' = (set (attempted db) \<subseteq> set (attempted db') \<and> set (committed db) \<subseteq> set (committed db'))"

definition fund_insert_stmt :: "fund_rec list \<Rightarrow> db_stmt" where
  "fund_insert_stmt batch_data =
     INSERT_FUNDS_BATCH
       (map (\<lambda>(code, name, fund_type, price). (code, name, fund_type, price, ''L'')) batch_data)"

section \<open>Concrete inputs used below\<close>

text \<open>Two exceptions whose messages mention a timeout in ASCII letters.\<close>

definition chunked_timeout_error :: py_exn where
  "chunked_timeout_error =
     \<lparr>exn_type = ''ChunkedEncodingError'', exn_msg = ''Connection broken: read Timeout''\<rparr>"

definition read_timeout_error :: py_exn where
  "read_timeout_error = \<lparr>exn_type = ''ReadTimeout'', exn_msg = ''HTTP read TIMEOUT after 30s''\<rparr>"

text \<open>
  The message \<open>chunKed encoding timeout\<close> with U+212A KELVIN SIGN in the place of the
  letter K.
\<close>

definition kelvin_error :: py_exn where
  "kelvin_error =
     \<lparr>exn_type = ''ValueError'',
      exn_msg = ''chun'' @ map char_of [0xe2, 0x84, 0xaa :: nat] @ ''ed encoding timeout''\<rparr>"

text \<open>
  The specification's merge example (domestic X at 10; supplemental X at 20 and Y at 5),
  one code listed by two domestic sources, and a data set of all five sources in which
  one QDII record has no usable price.
\<close>

definition merge_example :: fund_data where
  "merge_example =
     [(OpenFund, [(''X'', ''x'', OpenFund, Some 10)]),
      (QdiiEuropeAmerica, [(''X'', ''x2'', QdiiEuropeAmerica, Some 20),
                           (''Y'', ''y'', QdiiEuropeAmerica, Some 5)])]"

definition dup_domestic_data :: fund_data where
  "dup_domestic_data =
     [(OpenFund, [(''510300'', ''feeder'', OpenFund, Some 1)]),
      (ExchangeFund, [(''510300'', ''etf'', ExchangeFund, Some 4)])]"

definition qdii_dash_frame :: fund_frame where
  "qdii_dash_frame =
     \<lparr>has_price_column = True,
      frame_rows = [\<lparr>row_code = ''Q1'', row_name = ''qdii one'', row_price = NotFloatable\<rparr>]\<rparr>"

definition five_source_data :: fund_data where
  "five_source_data =
     [(OpenFund, [(''000001'', ''open'', OpenFund, Some 1)]),
      (MoneyFund, [(''000002'', ''money'', MoneyFund, Some 2)]),
      (ExchangeFund, [(''510300'', ''etf'', ExchangeFund, Some 4)]),
      (QdiiEuropeAmerica, extract_fund_values qdii_dash_frame QdiiEuropeAmerica),
      (QdiiAsia, [(''Q2'', ''qdii two'', QdiiAsia, Some 3)])]"

text \<open>
  A database that accepts every statement, and one whose query for the funds' keys
  fails.
\<close>

definition db_error :: py_exn where
  "db_error =
     \<lparr>exn_type = ''OperationalError'', exn_msg = ''server closed the connection unexpectedly''\<rparr>"

definition ok_db :: db_env where
  "ok_db = \<lparr>begin_error = (\<lambda>stmt. None), execute = (\<lambda>stmt. Rowcount 1),
            commit_error = (\<lambda>stmt. None), elapsed = (\<lambda>stmt. 1),
            fund_codes_query = Inr {''000001'', ''999999''},
            stock_symbols_query = Inr [(''600000'', ''A''), (''00700'', ''HK'')]\<rparr>"


definition db0 :: storage where
  "db0 = \<lparr>attempted = [], committed = []\<rparr>"

text \<open>
  Funds runs: every source answers with one priced row; the same with the QDII Asia
  source answering with an empty table on every attempt; the same with the key query
  failing.
\<close>

definition one_row_frame :: "string \<Rightarrow> fund_frame" where
  "one_row_frame code =
     \<lparr>has_price_column = True,
      frame_rows = [\<lparr>row_code = code, row_name = ''fund'', row_price = Floatable 1\<rparr>]\<rparr>"

definition good_api :: "fund_type \<Rightarrow> nat \<Rightarrow> fund_frame api_result" where
  "good_api fund_type attempt =
     ApiFrame (one_row_frame (case fund_type of
        OpenFund \<Rightarrow> ''000001'' | MoneyFund \<Rightarrow> ''000002'' | ExchangeFund \<Rightarrow> ''510300''
      | QdiiEuropeAmerica \<Rightarrow> ''Q1'' | QdiiAsia \<Rightarrow> ''Q2''))"

definition asia_empty_api :: "fund_type \<Rightarrow> nat \<Rightarrow> fund_frame api_result" where
  "asia_empty_api fund_type attempt =
     (if fund_type = QdiiAsia then ApiFrame \<lparr>has_price_column = True, frame_rows = []\<rparr>
      else good_api fund_type attempt)"

definition fund_cfg :: sync_config where
  "fund_cfg = \<lparr>cfg_batch_size = 2000, cfg_max_workers = 6, cfg_max_retry = 3, cfg_retry_delay = 5\<rparr>"

definition completed_fund_env :: fund_env where
  "completed_fund_env =
     \<lparr>fund_engine = EngineOk, fund_tasks = FUND_TYPES, fund_api = good_api,
      fund_db = ok_db, FUND_CONFIG = fund_cfg\<rparr>"

definition aborted_fund_env :: fund_env where
  "aborted_fund_env = completed_fund_env\<lparr>fund_api := asia_empty_api\<rparr>"


text \<open>
  Stocks runs over two open markets, written A and HK. Storage holds symbol 600000 for A
  and 00700 for HK. Market A answers with symbol 600001 only, so 600000 is to be removed.
  In the second run market A's fetch fails on every attempt instead. In the third market
  A has no cleaning function, as the data factory registers it.
\<close>

definition stock_row :: "string \<Rightarrow> stock_rec" where
  "stock_row s = \<lparr>symbol = Some s, datetime = Some ''2024-01-02 10:00:00'', quote = Some 1\<rparr>"

definition market_A :: market_config where
  "market_A =
     \<lparr>conf_market_name = ''A'',
      conf_get_data_func = (\<lambda>attempt. InTime (ApiFrame [stock_row ''600001''])),
      conf_clean_func = Some (\<lambda>df. Inr df), conf_market_open = True, conf_concurrency = 2\<rparr>"

definition market_HK :: market_config where
  "market_HK =
     \<lparr>conf_market_name = ''HK'',
      conf_get_data_func = (\<lambda>attempt. InTime (ApiFrame [stock_row ''00700''])),
      conf_clean_func = Some (\<lambda>df. Inr df), conf_market_open = True, conf_concurrency = 1\<rparr>"

definition connection_refused :: py_exn where
  "connection_refused = \<lparr>exn_type = ''ConnectionError'', exn_msg = ''Connection refused''\<rparr>"

definition two_market_env :: stock_env where
  "two_market_env =
     \<lparr>processor_ok = True, market_configs = [market_A, market_HK], stock_engine = None,
      stock_db = ok_db, stock_batch_size = 2000, stock_max_retry = 3\<rparr>"

definition fetch_fail_env :: stock_env where
  "fetch_fail_env =
     two_market_env\<lparr>market_configs :=
       [market_A\<lparr>conf_get_data_func := (\<lambda>attempt. InTime (ApiRaises connection_refused))\<rparr>,
        market_HK]\<rparr>"

definition factory_env :: stock_env where
  "factory_env =
     two_market_env\<lparr>market_configs := [market_A\<lparr>conf_clean_func := None\<rparr>, market_HK]\<rparr>"


definition alarm_env :: stock_env where
  "alarm_env =
     two_market_env\<lparr>market_configs :=
       [market_A\<lparr>conf_get_data_func := (\<lambda>attempt. OutlastsAlarm)\<rparr>, market_HK]\<rparr>"

text \<open>
  A database whose commit fails for one stock update batch and for one fund insert batch,
  a database in which executing any statement raises, and a configuration with batches of
  one record.
\<close>

definition flaky_db :: db_env where
  "flaky_db =
     ok_db\<lparr>commit_error := (\<lambda>stmt.
        if stmt = UPDATE_STOCK ''A'' [stock_row ''600000'']
           \<or> stmt = fund_insert_stmt [(''000001'', ''open'', OpenFund, Some 1)]
        then Some db_error else None)\<rparr>"

definition raising_db :: db_env where
  "raising_db = ok_db\<lparr>execute := (\<lambda>stmt. ExecRaises db_error)\<rparr>"

definition small_cfg :: sync_config where
  "small_cfg = \<lparr>cfg_batch_size = 1, cfg_max_workers = 2, cfg_max_retry = 3, cfg_retry_delay = 5\<rparr>"

section \<open>Substrings and batches\<close>

text \<open>
  \<open>py_in\<close> is the substring relation, and cutting a list into batches of a positive
  size loses and reorders nothing.
\<close>

lemma py_in_iff: "py_in sub s \<longleftrightarrow> (\<exists>pre post. s = pre @ sub @ post)"
proof (induction s)
  case Nil
  then show ?case by auto
next
  case (Cons c cs)
  show ?case
  proof
    assume "py_in sub (c # cs)"
    then consider "prefix sub (c # cs)" | "py_in sub cs" by auto
    then show "\<exists>pre post. c # cs = pre @ sub @ post"
    proof cases
      case 1
      then obtain post where "c # cs = sub @ post" by (auto simp: prefix_def)
      then have "c # cs = [] @ sub @ post" by simp
      then show ?thesis by blast
    next
      case 2
      with Cons.IH obtain pre post where "cs = pre @ sub @ post" by blast
      then have "c # cs = (c # pre) @ sub @ post" by simp
      then show ?thesis by blast
    qed
  next
    assume "\<exists>pre post. c # cs = pre @ sub @ post"
    then obtain pre post where eq: "c # cs = pre @ sub @ post" by blast
    show "py_in sub (c # cs)"
    proof (cases pre)
      case Nil
      with eq have "prefix sub (c # cs)" by (simp add: prefix_def)
      then show ?thesis by simp
    next
      case (Cons p ps)
      with eq have "cs = ps @ sub @ post" by simp
      with Cons.IH have "py_in sub cs" by blast
      then show ?thesis by simp
    qed
  qed
qed


lemma concat_batches_of: "0 < n \<Longrightarrow> concat (batches_of n xs) = xs"
proof (induction n xs rule: batches_of.induct)
  case (1 n xs)
  show ?case
  proof (cases "xs = []")
    case True
    then show ?thesis by (simp add: batches_of.simps)
  next
    case False
    with 1 have "concat (batches_of n (drop n xs)) = drop n xs" by simp
    with False 1(2) show ?thesis by (subst batches_of.simps) simp
  qed
qed

lemma concat_map_filter_batches:
  assumes "0 < n"
  shows "concat (map (filter P) (batches_of n xs)) = filter P xs"
proof -
  have "concat (map (filter P) (batches_of n xs)) = filter P (concat (batches_of n xs))"
    by (simp add: filter_concat)
  with assms show ?thesis by (simp add: concat_batches_of)
qed

lemma Union_chunk_symbols:
  assumes "0 < n"
  shows "(\<Union>chunk\<in>set (batches_of n xs). set (List.map_filter f chunk)) = set (List.map_filter f xs)"
proof -
  have "(\<Union>chunk\<in>set yss. set (List.map_filter f chunk)) = set (List.map_filter f (concat yss))"
    for yss
    by (induction yss) (auto simp: List.map_filter_def)
  from this [of "batches_of n xs"] assms show ?thesis by (simp add: concat_batches_of)
qed

text \<open>Chunking does not change the classification of the stock rows.\<close>

lemma classify_records_eq:
  "classify_records cleaned existing_symbols =
     (filter (symbol_in existing_symbols) cleaned,
      filter (\<lambda>r. \<not> symbol_in existing_symbols r) cleaned,
      set (List.map_filter symbol cleaned))"
  by (simp add: classify_records_def Let_def concat_map_filter_batches Union_chunk_symbols)

section \<open>The retry delay (claim C8)\<close>

text \<open>
  Claim C8 says that the delay function follows the specification's table for every error
  kind, base delay and attempt index. The NETWORK row differs: the code multiplies the
  base delay by the attempt index itself, the table by \<open>max attemptIndex 1\<close>. At attempt
  0 the code waits 0 and the table \<open>baseDelay\<close>.
\<close>

theorem C8_network_delay_counterexample:
  "get_retry_delay ''NETWORK'' 5 0 = 0 \<and> delayFor_spec ''NETWORK'' 5 0 = 5"
  by (simp add: get_retry_delay_def delayFor_spec_def)

text \<open>
  Claim C8, amended: the delay is \<open>base * 2 ^ attempt + 5\<close> for RATE\_LIMIT,
  \<open>base + 2\<close> for CHUNKED\_ENCODING, \<open>base + attempt\<close> for TIMEOUT,
  \<open>base * attempt\<close> for NETWORK, \<open>base * 2\<close> for SERVER\_ERROR,
  \<open>base * (attempt + 1)\<close> for PANDAS\_MISMATCH and \<open>base\<close> for every other kind. So it
  agrees with the specification's table except for NETWORK at attempt 0.
\<close>

theorem C8_retry_delay_table:
  "get_retry_delay ''RATE_LIMIT'' base_delay attempt = base_delay * 2 ^ attempt + 5
   \<and> get_retry_delay ''CHUNKED_ENCODING'' base_delay attempt = base_delay + 2
   \<and> get_retry_delay ''TIMEOUT'' base_delay attempt = base_delay + int attempt
   \<and> get_retry_delay ''NETWORK'' base_delay attempt = base_delay * int attempt
   \<and> get_retry_delay ''SERVER_ERROR'' base_delay attempt = base_delay * 2
   \<and> get_retry_delay ''PANDAS_MISMATCH'' base_delay attempt = base_delay * (int attempt + 1)
   \<and> (kind \<notin> {''RATE_LIMIT'', ''CHUNKED_ENCODING'', ''TIMEOUT'', ''NETWORK'', ''SERVER_ERROR'',
                ''PANDAS_MISMATCH''}
        \<longrightarrow> get_retry_delay kind base_delay attempt = base_delay)
   \<and> (kind \<noteq> ''NETWORK'' \<or> 0 < attempt
        \<longrightarrow> get_retry_delay kind base_delay attempt = delayFor_spec kind base_delay attempt)"
  by (auto simp add: get_retry_delay_def delayFor_spec_def max_def)

theorem C8_retry_delay_table_witness:
  "get_retry_delay ''UNKNOWN'' 3 2 = 3
   \<and> get_retry_delay ''NETWORK'' 3 2 = 6
   \<and> get_retry_delay ''UNKNOWN'' 3 2 = delayFor_spec ''UNKNOWN'' 3 2"
  using C8_retry_delay_table [of 3 2 "''UNKNOWN''"] by simp

section \<open>Classification of timeouts (claim C9)\<close>

text \<open>
  Claim C9 says that every error whose message contains "timeout" in any letter case is
  classified as Timeout, and that a Timeout is retried whenever \<open>attempt < max\<close>. The
  encoding test comes first in the code: a chunked-encoding error whose message mentions
  a timeout is classified CHUNKED\_ENCODING.
\<close>

theorem C9_chunked_timeout_counterexample:
  "py_in ''timeout'' (lower (exn_msg chunked_timeout_error))
   \<and> classify_error chunked_timeout_error = ''CHUNKED_ENCODING''
   \<and> classify_error chunked_timeout_error \<noteq> ''TIMEOUT''"
  by code_simp

text \<open>
  Lower-casing is Python's: the Kelvin sign becomes the letter k, so a message that
  spells "chunked encoding" with it is an encoding error for the code, and for the
  model.
\<close>

lemma kelvin_sign_lowercased:
  "lower (exn_msg kelvin_error) = ''chunked encoding timeout''
   \<and> classify_error kelvin_error = ''CHUNKED_ENCODING''"
  by code_simp

text \<open>
  Claim C9, amended: every error whose lower-cased message contains "timeout", and which
  is not an encoding error (its lower-cased type name does not contain
  "chunkedencodingerror" and its lower-cased message does not contain
  "chunked encoding"), is classified TIMEOUT; and TIMEOUT is retried whenever
  \<open>attempt < max_retry\<close>. Lower-casing is \<open>str.lower()\<close>, under which the
  Kelvin sign counts as the letter k.
\<close>

theorem C9_timeout_classified_and_retried:
  assumes "py_in ''timeout'' (lower (exn_msg error))"
    and "\<not> py_in ''chunkedencodingerror'' (lower (exn_type error))"
    and "\<not> py_in ''chunked encoding'' (lower (exn_msg error))"
    and "attempt < max_retry"
  shows "classify_error error = ''TIMEOUT''
         \<and> should_retry (classify_error error) attempt max_retry"
proof -
  from assms(1-3) have c: "classify_error error = ''TIMEOUT''"
    by (simp add: classify_error_def any_keyword_def Let_def)
  from assms(4) have "should_retry ''TIMEOUT'' attempt max_retry"
    by (simp add: should_retry_def)
  with c show ?thesis by simp
qed

theorem C9_timeout_classified_and_retried_witness:
  "py_in ''timeout'' (lower (exn_msg read_timeout_error))
   \<and> \<not> py_in ''chunkedencodingerror'' (lower (exn_type read_timeout_error))
   \<and> \<not> py_in ''chunked encoding'' (lower (exn_msg read_timeout_error))
   \<and> classify_error read_timeout_error = ''TIMEOUT''
   \<and> should_retry (classify_error read_timeout_error) 0 3"
proof -
  have h1: "py_in ''timeout'' (lower (exn_msg read_timeout_error))" by code_simp
  have h2: "\<not> py_in ''chunkedencodingerror'' (lower (exn_type read_timeout_error))" by code_simp
  have h3: "\<not> py_in ''chunked encoding'' (lower (exn_msg read_timeout_error))" by code_simp
  have h4: "(0::int) < 3" by simp
  from C9_timeout_classified_and_retried [OF h1 h2 h3 h4] h1 h2 h3 show ?thesis by blast
qed

section \<open>The cross-source merge of funds (claims C3 and C4)\<close>

lemma merge_domestic_funds:
  "set (fst (merge_domestic ft rs (f, c, e))) =
     set f \<union> {(code, name, ft, p) |code name t p. (code, name, t, p) \<in> set rs \<and> p \<noteq> None}"
proof (induction rs arbitrary: f c e)
  case Nil
  then show ?case by simp
next
  case (Cons r rs)
  obtain code name t p where r: "r = (code, name, t, p)" by (cases r) auto
  show ?case unfolding r using Cons.IH by (cases p) auto
qed

lemma over_types_inv:
  assumes "\<And>ft recs st. P st \<Longrightarrow> P (body ft recs st)" and "P st"
  shows "P (over_types body fd ts st)"
  using assms(2) by (induction ts arbitrary: st) (auto simp: assms(1) split: option.splits)

lemma merge_domestic_codes:
  "fst (snd st) = fst ` set (fst st) \<Longrightarrow>
   fst (snd (merge_domestic ft rs st)) = fst ` set (fst (merge_domestic ft rs st))"
proof (induction rs arbitrary: st)
  case Nil
  then show ?case by simp
next
  case (Cons r rs)
  obtain code name t p where r: "r = (code, name, t, p)" by (cases r) auto
  obtain f c e where st: "st = (f, c, e)" by (cases st) auto
  show ?case
  proof (cases p)
    case None
    with Cons.IH [of "(f, c, insert code e)"] Cons.prems r st show ?thesis by simp
  next
    case (Some y)
    with Cons.IH [of "(f @ [(code, name, ft, p)], insert code c, e)"] Cons.prems r st
    show ?thesis by simp
  qed
qed

lemma over_types_domestic_funds:
  "set (fst (over_types merge_domestic fd ts (f, c, e))) =
     set f \<union> {(code, name, ft, p) |code name ft p recs t.
                 ft \<in> set ts \<and> map_of fd ft = Some recs \<and> (code, name, t, p) \<in> set recs \<and> p \<noteq> None}"
proof (induction ts arbitrary: f c e)
  case Nil
  then show ?case by simp
next
  case (Cons ft ts)
  show ?case
  proof (cases "map_of fd ft")
    case None
    with Cons.IH show ?thesis by auto
  next
    case (Some recs)
    obtain f' c' e' where m: "merge_domestic ft recs (f, c, e) = (f', c', e')"
      by (cases "merge_domestic ft recs (f, c, e)") auto
    from merge_domestic_funds [of ft recs f c e] m
    have f': "set f' = set f \<union> {(code, name, ft, p) |code name t p. (code, name, t, p) \<in> set recs \<and> p \<noteq> None}"
      by simp
    from Some m Cons.IH [of f' c' e'] f' show ?thesis by auto
  qed
qed

lemma over_types_domestic_codes:
  "fst (snd (over_types merge_domestic fd ts ([], {}, {}))) =
     fst ` set (fst (over_types merge_domestic fd ts ([], {}, {})))"
  by (rule over_types_inv [where P = "\<lambda>st. fst (snd st) = fst ` set (fst st)"])
     (simp_all add: merge_domestic_codes)

lemma merge_qdii_inv: "qdii_inv D st \<Longrightarrow> qdii_inv D (merge_qdii ft rs st)"
proof (induction rs arbitrary: st)
  case Nil
  then show ?case by simp
next
  case (Cons r rs)
  obtain code name t p where r: "r = (code, name, t, p)" by (cases r) auto
  obtain qf codes n k where st: "st = (qf, codes, n, k)" by (cases st) auto
  show ?case
  proof (cases "code \<in> codes")
    case True
    from Cons.prems st have "qdii_inv D (qf, codes, n, k + 1)"
      by (simp add: qdii_inv_def)
    from Cons.IH [OF this] True r st show ?thesis by simp
  next
    case False
    with Cons.prems st
    have "qdii_inv D (qf @ [(code, name, ft, p)], insert code codes, n + 1, k)"
      by (auto simp: qdii_inv_def)
    from Cons.IH [OF this] False r st show ?thesis by simp
  qed
qed

lemma over_types_qdii_inv: "qdii_inv D st \<Longrightarrow> qdii_inv D (over_types merge_qdii fd ts st)"
  by (induction ts arbitrary: st) (auto simp: merge_qdii_inv split: option.splits)

lemma merge_qdii_all:
  assumes "\<forall>x\<in>set (fst st). Q x"
    and "\<And>code name t p. (code, name, t, p) \<in> set rs \<Longrightarrow> Q (code, name, ft, p)"
  shows "\<forall>x\<in>set (fst (merge_qdii ft rs st)). Q x"
  using assms
proof (induction rs arbitrary: st)
  case Nil
  then show ?case by simp
next
  case (Cons r rs)
  obtain code name t p where r: "r = (code, name, t, p)" by (cases r) auto
  obtain qf codes n k where st: "st = (qf, codes, n, k)" by (cases st) auto
  from Cons.prems(2) [of code name t p] r have q: "Q (code, name, ft, p)" by simp
  have rest: "Q (c', n', ft, p')" if "(c', n', t', p') \<in> set rs" for c' n' t' p'
    using Cons.prems(2) [of c' n' t' p'] that by simp
  show ?case
  proof (cases "code \<in> codes")
    case True
    from Cons.prems(1) st have "\<forall>x\<in>set (fst (qf, codes, n, k + 1)). Q x" by simp
    from Cons.IH [OF this rest] True r st show ?thesis by simp
  next
    case False
    from Cons.prems(1) st q
    have "\<forall>x\<in>set (fst (qf @ [(code, name, ft, p)], insert code codes, n + 1, k)). Q x"
      by simp
    from Cons.IH [OF this rest] False r st show ?thesis by simp
  qed
qed

lemma merge_domestic_all:
  assumes "\<forall>x\<in>set (fst st). Q x"
    and "\<And>code name t p. (code, name, t, p) \<in> set rs \<Longrightarrow> Q (code, name, ft, p)"
  shows "\<forall>x\<in>set (fst (merge_domestic ft rs st)). Q x"
  using assms
proof (induction rs arbitrary: st)
  case Nil
  then show ?case by simp
next
  case (Cons r rs)
  obtain code name t p where r: "r = (code, name, t, p)" by (cases r) auto
  obtain f c e where st: "st = (f, c, e)" by (cases st) auto
  from Cons.prems(2) [of code name t p] r have q: "Q (code, name, ft, p)" by simp
  have rest: "Q (c', n', ft, p')" if "(c', n', t', p') \<in> set rs" for c' n' t' p'
    using Cons.prems(2) [of c' n' t' p'] that by simp
  show ?case
  proof (cases p)
    case None
    from Cons.prems(1) st have "\<forall>x\<in>set (fst (f, c, insert code e)). Q x" by simp
    from Cons.IH [OF this rest] None r st show ?thesis by simp
  next
    case (Some y)
    from Cons.prems(1) st q
    have "\<forall>x\<in>set (fst (f @ [(code, name, ft, p)], insert code c, e)). Q x"
      by simp
    from Cons.IH [OF this rest] Some r st show ?thesis by simp
  qed
qed

lemma over_types_all:
  assumes body: "\<And>ft rs st. \<forall>x\<in>set (fst st). Q x
            \<Longrightarrow> (\<And>code name t p. (code, name, t, p) \<in> set rs \<Longrightarrow> Q (code, name, ft, p))
            \<Longrightarrow> \<forall>x\<in>set (fst (body ft rs st)). Q x"
    and "\<forall>x\<in>set (fst st). Q x"
    and "\<And>ft recs code name t p. ft \<in> set ts \<Longrightarrow> map_of fd ft = Some recs
            \<Longrightarrow> (code, name, t, p) \<in> set recs \<Longrightarrow> Q (code, name, ft, p)"
  shows "\<forall>x\<in>set (fst (over_types body fd ts st)). Q x"
  using assms(2,3)
proof (induction ts arbitrary: st)
  case Nil
  then show ?case by simp
next
  case (Cons ft ts)
  from Cons.prems(2) have rest: "\<And>ft recs code name t p. ft \<in> set ts \<Longrightarrow> map_of fd ft = Some recs
            \<Longrightarrow> (code, name, t, p) \<in> set recs \<Longrightarrow> Q (code, name, ft, p)"
    by simp
  show ?case
  proof (cases "map_of fd ft")
    case None
    with Cons.IH [OF Cons.prems(1) rest] show ?thesis by simp
  next
    case (Some recs)
    from Cons.prems(2) [of ft recs] Some
    have "\<And>code name t p. (code, name, t, p) \<in> set recs \<Longrightarrow> Q (code, name, ft, p)" by simp
    from body [OF Cons.prems(1) this] have "\<forall>x\<in>set (fst (body ft recs st)). Q x" .
    from Cons.IH [OF this rest] Some show ?thesis by simp
  qed
qed

lemma filter_key_distinct:
  "distinct (map f xs) \<Longrightarrow> x \<in> set xs \<Longrightarrow> length (filter (\<lambda>y. f y = f x) xs) = 1"
proof (induction xs)
  case Nil
  then show ?case by simp
next
  case (Cons a xs)
  show ?case
  proof (cases "a = x")
    case True
    from Cons.prems(1) have "f a \<notin> f ` set xs" by simp
    then have "\<forall>y\<in>set xs. f y \<noteq> f a" by (metis imageI)
    then have "filter (\<lambda>y. f y = f a) xs = []" by (simp add: filter_empty_conv)
    with True show ?thesis by simp
  next
    case False
    with Cons.prems have x: "x \<in> set xs" by simp
    with Cons.prems(1) have "f a \<noteq> f x" by auto
    with Cons.IH x Cons.prems(1) show ?thesis by simp
  qed
qed

text \<open>
  Claim C3 says that every priced record of a domestic source is accepted, that a QDII
  record is accepted only if its key is not among the accepted keys, that on a collision
  the domestic record is kept, and so that the merged output has at most one record per
  key. The last part fails: domestic records are accepted without any test on the
  accepted keys, so a code listed by two domestic sources appears twice.
\<close>

theorem C3_domestic_duplicate_counterexample:
  "fst (integrate_fund_data dup_domestic_data) =
     [(''510300'', ''etf'', ExchangeFund, Some 4), (''510300'', ''feeder'', OpenFund, Some 1)]"
  by (simp add: integrate_fund_data_def dup_domestic_data_def domestic_types_def qdii_types_def)

text \<open>
  Claim C3, amended: every priced record of a domestic source is in the merged output
  (tagged with its source); every QDII record in the merged output comes from that QDII
  source's input and is the only record of the output with its key, so a QDII record
  whose key is already accepted is never added and never replaces the accepted record;
  the returned key set is the key set of the output. Two domestic sources may both
  contribute a record for the same key.
\<close>

theorem C3_merge_priority:
  assumes "integrate_fund_data fund_data = (final_funds, codes)"
  shows "(\<forall>fund_type\<in>set domestic_types. \<forall>recs. map_of fund_data fund_type = Some recs \<longrightarrow>
            (\<forall>(code, name, t, p)\<in>set recs. p \<noteq> None \<longrightarrow> (code, name, fund_type, p) \<in> set final_funds))
       \<and> (\<forall>r\<in>set final_funds. fst (snd (snd r)) \<in> set qdii_types \<longrightarrow>
            (\<exists>recs t. map_of fund_data (fst (snd (snd r))) = Some recs
                 \<and> (fst r, fst (snd r), t, snd (snd (snd r))) \<in> set recs)
            \<and> length (filter (\<lambda>r'. fst r' = fst r) final_funds) = 1)
       \<and> codes = fst ` set final_funds"
proof -
  obtain df dc de where d: "over_types merge_domestic fund_data domestic_types ([], {}, {}) = (df, dc, de)"
    by (cases "over_types merge_domestic fund_data domestic_types ([], {}, {})") auto
  obtain qf qc n k where q: "over_types merge_qdii fund_data qdii_types ([], dc, 0, 0) = (qf, qc, n, k)"
    by (cases "over_types merge_qdii fund_data qdii_types ([], dc, 0, 0)") auto
  from assms d q have final: "final_funds = df @ qf" and codes: "codes = qc"
    by (simp_all add: integrate_fund_data_def)
  from over_types_domestic_codes [of fund_data domestic_types] d
  have dc: "dc = fst ` set df" by simp
  from over_types_domestic_funds [of fund_data domestic_types "[]" "{}" "{}"] d
  have df: "set df = {(code, name, ft, p) |code name ft p recs t.
                 ft \<in> set domestic_types \<and> map_of fund_data ft = Some recs
                 \<and> (code, name, t, p) \<in> set recs \<and> p \<noteq> None}"
    by simp
  have "qdii_inv dc ([], dc, 0, 0)" by (simp add: qdii_inv_def)
  from over_types_qdii_inv [OF this, of fund_data qdii_types] q
  have inv: "distinct (map fst qf)" "qc = dc \<union> fst ` set qf" "dc \<inter> fst ` set qf = {}"
    by (simp_all add: qdii_inv_def)
  have "\<forall>x\<in>set (fst (over_types merge_domestic fund_data domestic_types ([], {}, {}))).
          fst (snd (snd x)) \<in> set domestic_types"
  proof (rule over_types_all [where Q = "\<lambda>x. fst (snd (snd x)) \<in> set domestic_types"])
    fix ft and rs :: "fund_rec list" and st :: "fund_rec list \<times> string set \<times> string set"
    assume "\<forall>x\<in>set (fst st). fst (snd (snd x)) \<in> set domestic_types"
      and "\<And>code name t p. (code, name, t, p) \<in> set rs
             \<Longrightarrow> fst (snd (snd (code, name, ft, p))) \<in> set domestic_types"
    then show "\<forall>x\<in>set (fst (merge_domestic ft rs st)). fst (snd (snd x)) \<in> set domestic_types"
      by (rule merge_domestic_all [where Q = "\<lambda>x. fst (snd (snd x)) \<in> set domestic_types"])
  qed simp_all
  with d have dtag: "\<forall>x\<in>set df. fst (snd (snd x)) \<in> set domestic_types" by simp
  have "\<forall>x\<in>set (fst (over_types merge_qdii fund_data qdii_types ([], dc, 0, 0))).
          (\<exists>recs t. map_of fund_data (fst (snd (snd x))) = Some recs
                 \<and> (fst x, fst (snd x), t, snd (snd (snd x))) \<in> set recs)"
  proof (rule over_types_all [where Q = "\<lambda>x. \<exists>recs t. map_of fund_data (fst (snd (snd x))) = Some recs
                 \<and> (fst x, fst (snd x), t, snd (snd (snd x))) \<in> set recs"])
    fix ft and rs :: "fund_rec list" and st :: "fund_rec list \<times> string set \<times> nat \<times> nat"
    assume "\<forall>x\<in>set (fst st). \<exists>recs t. map_of fund_data (fst (snd (snd x))) = Some recs
                 \<and> (fst x, fst (snd x), t, snd (snd (snd x))) \<in> set recs"
      and "\<And>code name t p. (code, name, t, p) \<in> set rs
             \<Longrightarrow> \<exists>recs t'. map_of fund_data (fst (snd (snd (code, name, ft, p)))) = Some recs
                 \<and> (fst (code, name, ft, p), fst (snd (code, name, ft, p)), t',
                      snd (snd (snd (code, name, ft, p)))) \<in> set recs"
    then show "\<forall>x\<in>set (fst (merge_qdii ft rs st)). \<exists>recs t. map_of fund_data (fst (snd (snd x))) = Some recs
                 \<and> (fst x, fst (snd x), t, snd (snd (snd x))) \<in> set recs"
      by (rule merge_qdii_all [where Q = "\<lambda>x. \<exists>recs t. map_of fund_data (fst (snd (snd x))) = Some recs
                 \<and> (fst x, fst (snd x), t, snd (snd (snd x))) \<in> set recs"])
  next
    show "\<forall>x\<in>set (fst ([], dc, 0::nat, 0::nat)). \<exists>recs t. map_of fund_data (fst (snd (snd x))) = Some recs
                 \<and> (fst x, fst (snd x), t, snd (snd (snd x))) \<in> set recs"
      by simp
  next
    fix ft recs code name t p
    assume "ft \<in> set qdii_types" "map_of fund_data ft = Some recs" "(code, name, t, p) \<in> set recs"
    then show "\<exists>recs t. map_of fund_data (fst (snd (snd (code, name, ft, p)))) = Some recs
                 \<and> (fst (code, name, ft, p), fst (snd (code, name, ft, p)), t,
                      snd (snd (snd (code, name, ft, p)))) \<in> set recs"
      by auto
  qed
  with q have qprov: "\<forall>x\<in>set qf. \<exists>recs t. map_of fund_data (fst (snd (snd x))) = Some recs
                 \<and> (fst x, fst (snd x), t, snd (snd (snd x))) \<in> set recs" by simp
  have part1: "\<forall>fund_type\<in>set domestic_types. \<forall>recs. map_of fund_data fund_type = Some recs \<longrightarrow>
            (\<forall>(code, name, t, p)\<in>set recs. p \<noteq> None \<longrightarrow> (code, name, fund_type, p) \<in> set final_funds)"
    unfolding final using df by auto
  have part2: "(\<exists>recs t. map_of fund_data (fst (snd (snd r))) = Some recs
                 \<and> (fst r, fst (snd r), t, snd (snd (snd r))) \<in> set recs)
            \<and> length (filter (\<lambda>r'. fst r' = fst r) final_funds) = 1"
    if r: "r \<in> set final_funds" and tag: "fst (snd (snd r)) \<in> set qdii_types" for r
  proof -
    from tag have "fst (snd (snd r)) \<notin> set domestic_types"
      by (auto simp: domestic_types_def qdii_types_def)
    with dtag have "r \<notin> set df" by blast
    with r final have rq: "r \<in> set qf" by simp
    with inv(3) dc have "fst r \<notin> fst ` set df" by blast
    then have "\<forall>y\<in>set df. fst y \<noteq> fst r" by (metis imageI)
    then have "filter (\<lambda>r'. fst r' = fst r) df = []" by (simp add: filter_empty_conv)
    moreover from filter_key_distinct [OF inv(1) rq]
    have "length (filter (\<lambda>r'. fst r' = fst r) qf) = 1" .
    ultimately have "length (filter (\<lambda>r'. fst r' = fst r) final_funds) = 1"
      by (simp add: final)
    with qprov rq show ?thesis by blast
  qed
  have part3: "codes = fst ` set final_funds"
    using codes inv(2) dc final by auto
  from part1 part2 part3 show ?thesis by blast
qed

theorem C3_merge_priority_witness:
  "integrate_fund_data merge_example =
     ([(''X'', ''x'', OpenFund, Some 10), (''Y'', ''y'', QdiiEuropeAmerica, Some 5)], {''X'', ''Y''})
   \<and> (''X'', ''x'', OpenFund, Some 10) \<in> set (fst (integrate_fund_data merge_example))
   \<and> length (filter (\<lambda>r'. fst r' = ''Y'') (fst (integrate_fund_data merge_example))) = 1"
proof -
  have e: "integrate_fund_data merge_example =
     ([(''X'', ''x'', OpenFund, Some 10), (''Y'', ''y'', QdiiEuropeAmerica, Some 5)], {''X'', ''Y''})"
    by (auto simp add: integrate_fund_data_def merge_example_def domestic_types_def qdii_types_def)
  note t = C3_merge_priority [OF e]
  have d: "OpenFund \<in> set domestic_types" by (simp add: domestic_types_def)
  have l: "map_of merge_example OpenFund = Some [(''X'', ''x'', OpenFund, Some 10)]"
    by (simp add: merge_example_def)
  from bspec [OF t [THEN conjunct1] d] l
  have "\<forall>(code, name, t, p)\<in>set [(''X'', ''x'', OpenFund, Some (10::real))]. p \<noteq> None \<longrightarrow>
          (code, name, OpenFund, p)
            \<in> set [(''X'', ''x'', OpenFund, Some 10), (''Y'', ''y'', QdiiEuropeAmerica, Some 5)]"
    by simp
  then have m: "(''X'', ''x'', OpenFund, Some 10)
               \<in> set [(''X'', ''x'', OpenFund, Some 10), (''Y'', ''y'', QdiiEuropeAmerica, Some (5::real))]"
    by simp
  have y: "(''Y'', ''y'', QdiiEuropeAmerica, Some (5::real))
             \<in> set [(''X'', ''x'', OpenFund, Some 10), (''Y'', ''y'', QdiiEuropeAmerica, Some 5)]"
    by simp
  have g: "fst (snd (snd (''Y'', ''y'', QdiiEuropeAmerica, Some (5::real)))) \<in> set qdii_types"
    by (simp add: qdii_types_def)
  from bspec [OF t [THEN conjunct2, THEN conjunct1] y] g
  have u: "length (filter (\<lambda>r'. fst r' = ''Y'')
               [(''X'', ''x'', OpenFund, Some 10), (''Y'', ''y'', QdiiEuropeAmerica, Some (5::real))]) = 1"
    by simp
  from e m u show ?thesis by simp
qed

text \<open>The domestic loop does leave null prices out: a domestic record of the output has a price.\<close>

lemma domestic_null_price_excluded:
  assumes "r \<in> set (fst (integrate_fund_data fund_data))"
    and "fst (snd (snd r)) \<in> set domestic_types"
  shows "snd (snd (snd r)) \<noteq> None"
proof -
  obtain df dc de where d: "over_types merge_domestic fund_data domestic_types ([], {}, {}) = (df, dc, de)"
    by (cases "over_types merge_domestic fund_data domestic_types ([], {}, {})") auto
  obtain qf qc n k where q: "over_types merge_qdii fund_data qdii_types ([], dc, 0, 0) = (qf, qc, n, k)"
    by (cases "over_types merge_qdii fund_data qdii_types ([], dc, 0, 0)") auto
  from d q have final: "fst (integrate_fund_data fund_data) = df @ qf"
    by (simp add: integrate_fund_data_def)
  from over_types_domestic_funds [of fund_data domestic_types "[]" "{}" "{}"] d
  have df: "set df = {(code, name, ft, p) |code name ft p recs t.
                 ft \<in> set domestic_types \<and> map_of fund_data ft = Some recs
                 \<and> (code, name, t, p) \<in> set recs \<and> p \<noteq> None}"
    by simp
  have "\<forall>x\<in>set (fst (over_types merge_qdii fund_data qdii_types ([], dc, 0, 0))).
          fst (snd (snd x)) \<in> set qdii_types"
  proof (rule over_types_all [where Q = "\<lambda>x. fst (snd (snd x)) \<in> set qdii_types"])
    fix ft and rs :: "fund_rec list" and st :: "fund_rec list \<times> string set \<times> nat \<times> nat"
    assume "\<forall>x\<in>set (fst st). fst (snd (snd x)) \<in> set qdii_types"
      and "\<And>code name t p. (code, name, t, p) \<in> set rs
             \<Longrightarrow> fst (snd (snd (code, name, ft, p))) \<in> set qdii_types"
    then show "\<forall>x\<in>set (fst (merge_qdii ft rs st)). fst (snd (snd x)) \<in> set qdii_types"
      by (rule merge_qdii_all [where Q = "\<lambda>x. fst (snd (snd x)) \<in> set qdii_types"])
  qed simp_all
  with q have "\<forall>x\<in>set qf. fst (snd (snd x)) \<in> set qdii_types" by simp
  moreover from assms(2) have "fst (snd (snd r)) \<notin> set qdii_types"
    by (auto simp: domestic_types_def qdii_types_def)
  ultimately have "r \<notin> set qf" by blast
  with assms(1) final have "r \<in> set df" by simp
  with df show ?thesis by auto
qed

text \<open>
  Claim C4 says that a record with a null price is left out of the merged output whatever
  its source. The domestic loop tests \<open>price is not None\<close>; the QDII loop does not.
  A QDII row whose price cell is present but not a number (\<open>float\<close> raises, so
  \<open>safe_float\<close> gives None) passes \<open>extract_fund_values\<close> and reaches the merged
  output with a null price.
\<close>

theorem C4_qdii_null_price_kept:
  "extract_fund_values qdii_dash_frame QdiiEuropeAmerica =
     [(''Q1'', ''qdii one'', QdiiEuropeAmerica, None)]
   \<and> fst (integrate_fund_data five_source_data) =
     [(''510300'', ''etf'', ExchangeFund, Some 4),
      (''000001'', ''open'', OpenFund, Some 1),
      (''000002'', ''money'', MoneyFund, Some 2),
      (''Q1'', ''qdii one'', QdiiEuropeAmerica, None),
      (''Q2'', ''qdii two'', QdiiAsia, Some 3)]"
  by (simp add: integrate_fund_data_def five_source_data_def extract_fund_values_def
        qdii_dash_frame_def domestic_types_def qdii_types_def)

section \<open>Empty inputs to the storage operations (claim C10)\<close>

text \<open>
  Claim C10: given an empty collection, each of mark-funds-deleted, insert-new-funds,
  update-existing-funds and mark-stocks-as-deleted sends nothing to the database, leaves
  storage as it was and returns zero (the duration 0.0, or the count 0).
\<close>

theorem C10_empty_input_no_storage_call:
  "mark_funds_deleted env {} db = (Inr 0, db)
   \<and> insert_new_funds cfg env [] db = (Inr 0, db)
   \<and> update_existing_funds cfg env [] db = (Inr 0, db)
   \<and> mark_stocks_as_deleted env {} market db = (0, db)"
  by (simp add: mark_funds_deleted_def insert_new_funds_def update_existing_funds_def
        pooled_fund_op_def mark_stocks_as_deleted_def)

section \<open>The funds coverage gate (claim C1)\<close>

text \<open>
  A fetch that returns no rows on any of its attempts gives \<open>None\<close>; the set of
  successful types is exactly the set of usable configured sources; so one missing or
  unusable source among the five makes \<open>collect_all_fund_data\<close> return \<open>None\<close>,
  and then the runner returns with storage untouched: not even the key query is sent.
\<close>

lemma safe_get_loop_exhausted:
  "(\<And>a. attempt \<le> a \<Longrightarrow> a < attempt + remaining \<Longrightarrow> \<not> returns_rows (get_func a))
   \<Longrightarrow> safe_get_loop get_func max_retry attempt remaining = None"
proof (induction remaining arbitrary: attempt)
  case 0
  then show ?case by simp
next
  case (Suc remaining)
  have here: "\<not> returns_rows (get_func attempt)" by (rule Suc.prems) simp_all
  have rest: "safe_get_loop get_func max_retry (Suc attempt) remaining = None"
    by (rule Suc.IH) (rule Suc.prems, simp_all)
  from here rest show ?case
    by (cases "get_func attempt") (simp_all add: Let_def)
qed

lemma safe_get_data_exhausted:
  "(\<And>a. a < max_retry \<Longrightarrow> \<not> returns_rows (get_func a)) \<Longrightarrow> safe_get_data get_func max_retry = None"
  unfolding safe_get_data_def by (rule safe_get_loop_exhausted) simp

lemma collect_loop_success:
  "snd (collect_loop api max_retry tasks (fd, succ)) =
     succ \<union> {t \<in> set tasks. source_usable (api t) max_retry t}"
proof (induction tasks arbitrary: fd succ)
  case Nil
  then show ?case by simp
next
  case (Cons t tasks)
  show ?case
  proof (cases "safe_get_data (api t) max_retry")
    case None
    then have "\<not> source_usable (api t) max_retry t" by (simp add: source_usable_def)
    with None Cons.IH [of fd succ] show ?thesis by auto
  next
    case (Some df)
    show ?thesis
    proof (cases "frame_rows df \<noteq> [] \<and> clean_fund_frame df t \<noteq> []")
      case True
      with Some have "source_usable (api t) max_retry t" by (simp add: source_usable_def)
      with True Some Cons.IH [of "dict_set fd t (clean_fund_frame df t)" "insert t succ"]
      show ?thesis by (auto simp: Let_def)
    next
      case False
      with Some have "\<not> source_usable (api t) max_retry t" by (simp add: source_usable_def)
      with False Some Cons.IH [of fd succ] show ?thesis by (auto simp: Let_def)
    qed
  qed
qed

lemma collect_all_fund_data_gate:
  assumes "fund_name \<in> set FUND_TYPES"
    and "fund_name \<notin> set tasks \<or> \<not> source_usable (api fund_name) max_retry fund_name"
  shows "collect_all_fund_data api max_retry tasks = None"
proof -
  from assms(2) have "fund_name \<notin> snd (collect_loop api max_retry tasks ([], {}))"
    by (auto simp: collect_loop_success)
  with assms(1) have "snd (collect_loop api max_retry tasks ([], {})) \<noteq> set FUND_TYPES"
    by blast
  then show ?thesis
    by (auto simp add: collect_all_fund_data_def Let_def split: prod.splits)
qed

lemma funds_coverage_gate:
  assumes "fund_name \<in> set FUND_TYPES"
    and "fund_name \<notin> set (fund_tasks env)
         \<or> \<not> source_usable (fund_api env fund_name) (cfg_max_retry (FUND_CONFIG env)) fund_name"
  shows "fund_sync_task_runner env db = (Inr PyNone, db) \<or> (\<exists>e. fund_sync_task_runner env db = (Inl e, db))"
proof -
  from collect_all_fund_data_gate [of fund_name "fund_tasks env" "fund_api env"
         "cfg_max_retry (FUND_CONFIG env)"] assms
  have "collect_all_fund_data (fund_api env) (cfg_max_retry (FUND_CONFIG env)) (fund_tasks env) = None" by simp
  then show ?thesis
    by (cases "fund_engine env") (simp_all add: fund_sync_task_runner_def)
qed

text \<open>
  Claim C1: when one of the five funds sources fails or yields no usable record, the run
  aborts before any database interaction, and the run result tells this aborted outcome
  from a completed run. The first half holds (\<open>funds_coverage_gate\<close>). The second
  does not: \<open>sync_task_runner\<close> returns \<open>None\<close> on every path, and its caller
  \<open>run_fundsync_task\<close>, which reads a truthy result as success, reports the same
  failure dict for the aborted run and for the run that committed all three statements.
\<close>

theorem C1_aborted_and_completed_same_result:
  "fund_sync_task_runner aborted_fund_env db0 = (Inr PyNone, db0)
   \<and> fst (fund_sync_task_runner completed_fund_env db0) = Inr PyNone
   \<and> committed (snd (fund_sync_task_runner completed_fund_env db0)) =
       [MARK_FUNDS_DELETED {''999999''},
        INSERT_FUNDS_BATCH [(''510300'', ''fund'', ExchangeFund, Some 1, ''L''),
                            (''000002'', ''fund'', MoneyFund, Some 1, ''L''),
                            (''Q1'', ''fund'', QdiiEuropeAmerica, Some 1, ''L''),
                            (''Q2'', ''fund'', QdiiAsia, Some 1, ''L'')],
        UPDATE_FUNDS_BATCH [(''000001'', ''fund'', Some 1)]]
   \<and> fst (run_fundsync_task aborted_fund_env db0) = FailureDict FundTaskFailed
   \<and> fst (run_fundsync_task completed_fund_env db0) = FailureDict FundTaskFailed"
  by code_simp

section \<open>Batch failures (claim C5)\<close>

lemma grows_refl: "grows db db"
  by (simp add: grows_def)

lemma grows_trans: "grows a b \<Longrightarrow> grows b c \<Longrightarrow> grows a c"
  by (auto simp: grows_def)

lemma marks_kept_refl: "marks_kept db db"
  by (simp add: marks_kept_def list_all_iff)

lemma marks_kept_trans: "marks_kept a b \<Longrightarrow> marks_kept b c \<Longrightarrow> marks_kept a c"
  by (auto simp: marks_kept_def list_all_iff)

lemma marks_kept_append:
  assumes "attempted db' = attempted db @ sent" and "\<forall>stmt\<in>set sent. \<not> is_mark stmt"
  shows "marks_kept db db'"
  using assms by (auto simp: marks_kept_def list_all_iff)

lemma update_rows_no_mark:
  assumes "update_rows_one_by_one env m rs (sent, applied, f) = (sent', applied', f')"
    and "\<forall>stmt\<in>set sent. \<not> is_mark stmt"
  shows "\<forall>stmt\<in>set sent'. \<not> is_mark stmt"
  using assms
proof (induction rs arbitrary: sent applied f)
  case Nil
  then show ?case by simp
next
  case (Cons r rs)
  show ?case
  proof (cases "execute env (UPDATE_STOCK m [r])")
    case (Rowcount n)
    with Cons.prems(1) have "update_rows_one_by_one env m rs
        (sent @ [UPDATE_STOCK m [r]], applied @ [UPDATE_STOCK m [r]],
         if n = 0 then f @ [symbol r] else f) = (sent', applied', f')"
      by simp
    from Cons.IH [OF this] Cons.prems(2) show ?thesis by simp
  next
    case (ExecRaises e)
    with Cons.prems(1) have "update_rows_one_by_one env m rs
        (sent @ [UPDATE_STOCK m [r]], applied, f @ [symbol r]) = (sent', applied', f')"
      by simp
    from Cons.IH [OF this] Cons.prems(2) show ?thesis by simp
  qed
qed

lemma insert_rows_no_mark:
  assumes "insert_rows_one_by_one env m rs (sent, applied) = (sent', applied')"
    and "\<forall>stmt\<in>set sent. \<not> is_mark stmt"
  shows "\<forall>stmt\<in>set sent'. \<not> is_mark stmt"
  using assms
proof (induction rs arbitrary: sent applied)
  case Nil
  then show ?case by simp
next
  case (Cons r rs)
  show ?case
  proof (cases "execute env (INSERT_STOCK m [r])")
    case (Rowcount n)
    with Cons.prems(1) have "insert_rows_one_by_one env m rs
        (sent @ [INSERT_STOCK m [r]], applied @ [INSERT_STOCK m [r]]) = (sent', applied')"
      by simp
    from Cons.IH [OF this] Cons.prems(2) show ?thesis by simp
  next
    case (ExecRaises e)
    with Cons.prems(1) have "insert_rows_one_by_one env m rs
        (sent @ [INSERT_STOCK m [r]], applied) = (sent', applied')"
      by simp
    from Cons.IH [OF this] Cons.prems(2) show ?thesis by simp
  qed
qed

lemma update_worker_marks:
  assumes "update_stock_records_batch env b m (db, f) = (r, db', f')"
  shows "marks_kept db db'"
proof -
  obtain sent applied f1 where rows: "update_rows_one_by_one env m b ([], [], f) = (sent, applied, f1)"
    by (cases "update_rows_one_by_one env m b ([], [], f)") auto
  from update_rows_no_mark [OF rows] have nm: "\<forall>stmt\<in>set sent. \<not> is_mark stmt" by simp
  from assms rows
  have "attempted db' = attempted db @ [UPDATE_STOCK m b]
      \<or> attempted db' = attempted db @ UPDATE_STOCK m b # sent"
    by (auto simp: update_stock_records_batch_def Let_def
             split: option.splits exec_result.splits prod.splits)
  then show ?thesis
  proof
    assume "attempted db' = attempted db @ [UPDATE_STOCK m b]"
    then show ?thesis by (rule marks_kept_append) simp
  next
    assume "attempted db' = attempted db @ UPDATE_STOCK m b # sent"
    then show ?thesis by (rule marks_kept_append) (simp add: nm)
  qed
qed

lemma insert_worker_marks:
  assumes "insert_stock_records_batch env b m db = (r, db')"
  shows "marks_kept db db'"
proof -
  obtain sent applied where rows: "insert_rows_one_by_one env m b ([], []) = (sent, applied)"
    by (cases "insert_rows_one_by_one env m b ([], [])") auto
  from insert_rows_no_mark [OF rows] have nm: "\<forall>stmt\<in>set sent. \<not> is_mark stmt" by simp
  from assms rows
  have "attempted db' = attempted db @ [INSERT_STOCK m b]
      \<or> attempted db' = attempted db @ INSERT_STOCK m b # sent"
    by (auto simp: insert_stock_records_batch_def Let_def
             split: option.splits exec_result.splits prod.splits)
  then show ?thesis
  proof
    assume "attempted db' = attempted db @ [INSERT_STOCK m b]"
    then show ?thesis by (rule marks_kept_append) simp
  next
    assume "attempted db' = attempted db @ INSERT_STOCK m b # sent"
    then show ?thesis by (rule marks_kept_append) (simp add: nm)
  qed
qed

lemma run_update_pool_marks:
  assumes "run_update_pool env m batches (db, f) = (r, db', f')"
  shows "marks_kept db db'"
  using assms
proof (induction batches arbitrary: db f r db' f')
  case Nil
  then show ?case by (simp add: marks_kept_refl)
next
  case (Cons b batches)
  obtain w db1 f1 where w: "update_stock_records_batch env b m (db, f) = (w, db1, f1)"
    by (cases "update_stock_records_batch env b m (db, f)") auto
  obtain r1 db2 f2 where p: "run_update_pool env m batches (db1, f1) = (r1, db2, f2)"
    by (cases "run_update_pool env m batches (db1, f1)") auto
  from Cons.prems w p have "db' = db2"
    by (cases w; cases r1) (auto split: if_splits)
  with update_worker_marks [OF w] Cons.IH [OF p] show ?case
    by (blast intro: marks_kept_trans)
qed

lemma run_insert_pool_marks:
  assumes "run_insert_pool env m batches db = (r, db')"
  shows "marks_kept db db'"
  using assms
proof (induction batches arbitrary: db r db')
  case Nil
  then show ?case by (simp add: marks_kept_refl)
next
  case (Cons b batches)
  obtain w db1 where w: "insert_stock_records_batch env b m db = (w, db1)"
    by (cases "insert_stock_records_batch env b m db") auto
  obtain r1 db2 where p: "run_insert_pool env m batches db1 = (r1, db2)"
    by (cases "run_insert_pool env m batches db1") auto
  from Cons.prems w p have "db' = db2"
    by (cases w; cases r1) (auto split: if_splits)
  with insert_worker_marks [OF w] Cons.IH [OF p] show ?case
    by (blast intro: marks_kept_trans)
qed

text \<open>
  The only removal statement that \<open>process_market_records\<close> sends is the one for the
  set it was given, and it sends none when that set is empty.
\<close>

lemma process_market_records_marks:
  assumes "process_market_records env m exist_records new_records removed batch_size concurrency db
           = (result, db')"
  shows "\<forall>stmt\<in>set (attempted db'). is_mark stmt \<longrightarrow>
           stmt \<in> set (attempted db) \<or> (removed \<noteq> {} \<and> stmt = MARK_STOCKS_DELETED m removed)"
proof (cases "concurrency = 0 \<or> batch_size = 0")
  case True
  with assms show ?thesis by (auto simp: process_market_records_def)
next
  case False
  obtain ru db1 fs where u: "run_update_pool env m (batches_of batch_size exist_records) (db, [])
        = (ru, db1, fs)"
    by (cases "run_update_pool env m (batches_of batch_size exist_records) (db, [])") auto
  obtain ri db2 where i: "(if new_records \<noteq> []
          then run_insert_pool env m (batches_of batch_size new_records) db1
          else ((0, 0), db1)) = (ri, db2)"
    by (cases "(if new_records \<noteq> []
          then run_insert_pool env m (batches_of batch_size new_records) db1
          else ((0, 0), db1))") auto
  obtain cnt db3 where d: "mark_stocks_as_deleted env removed m db2 = (cnt, db3)"
    by (cases "mark_stocks_as_deleted env removed m db2") auto
  have k1: "marks_kept db db1" by (rule run_update_pool_marks [OF u])
  have k2: "marks_kept db1 db2"
  proof (cases "new_records = []")
    case True
    with i show ?thesis by (simp add: marks_kept_refl)
  next
    case False
    with i show ?thesis by (simp add: run_insert_pool_marks)
  qed
  from k1 k2 have k: "marks_kept db db2" by (rule marks_kept_trans)
  show ?thesis
  proof (cases "removed = {}")
    case True
    with assms False u i have "db' = db2"
      by (cases ru; cases ri) (simp add: process_market_records_def)
    with k show ?thesis by (auto simp: marks_kept_def list_all_iff)
  next
    case removed: False
    from d removed have a3: "attempted db3 = attempted db2 @ [MARK_STOCKS_DELETED m removed]"
      by (auto simp: mark_stocks_as_deleted_def run_tx_def Let_def
               split: option.splits exec_result.splits)
    from assms False u i d removed have "db' = db3"
      by (cases ru; cases ri) (simp add: process_market_records_def unpack_pair_of_int_def)
    with k a3 removed show ?thesis by (auto simp: marks_kept_def list_all_iff)
  qed
qed

lemma bulk_total:
  assumes "bulk_executes env stmt_of batches"
  shows "tx_total env stmt_of batches = ok_total env stmt_of batches"
proof -
  from assms have "filter (\<lambda>b. tx_ok env (stmt_of b)) batches
                 = filter (\<lambda>b. stmt_ok env (stmt_of b)) batches"
    by (intro filter_cong refl) (auto simp: bulk_executes_def list_all_iff stmt_ok_def)
  then show ?thesis by (simp add: tx_total_def ok_total_def)
qed

lemma run_tx_effect:
  assumes "run_tx env stmt db = (r, db')"
  shows "grows db db'"
    and "stmt \<in> set (attempted db')"
    and "stmt_ok env stmt \<Longrightarrow> stmt \<in> set (committed db') \<and> (\<exists>n. r = Inr n)"
    and "\<not> stmt_ok env stmt \<Longrightarrow> (\<exists>e. r = Inl e)"
  using assms
  by (auto simp: run_tx_def Let_def grows_def tx_ok_def stmt_ok_def
           split: option.splits exec_result.splits)

lemma update_worker_effect:
  assumes "update_stock_records_batch env b m (db, f) = ((n, d, err), db', f')"
  shows "grows db db'"
    and "UPDATE_STOCK m b \<in> set (attempted db')"
    and "stmt_ok env (UPDATE_STOCK m b) \<Longrightarrow> UPDATE_STOCK m b \<in> set (committed db')"
    and "tx_ok env (UPDATE_STOCK m b) \<Longrightarrow> n = length b \<and> err = None"
    and "\<not> tx_ok env (UPDATE_STOCK m b) \<Longrightarrow> n = 0 \<and> err \<noteq> None"
  using assms
  by (auto simp: update_stock_records_batch_def Let_def grows_def tx_ok_def stmt_ok_def
           split: option.splits exec_result.splits prod.splits intro: sym)

lemma insert_worker_effect:
  assumes "insert_stock_records_batch env b m db = ((n, d, err), db')"
  shows "grows db db'"
    and "INSERT_STOCK m b \<in> set (attempted db')"
    and "stmt_ok env (INSERT_STOCK m b) \<Longrightarrow> INSERT_STOCK m b \<in> set (committed db')"
    and "tx_ok env (INSERT_STOCK m b) \<Longrightarrow> n = length b \<and> err = None"
    and "\<not> tx_ok env (INSERT_STOCK m b) \<Longrightarrow> n = 0 \<and> err \<noteq> None"
  using assms
  by (auto simp: insert_stock_records_batch_def Let_def grows_def tx_ok_def stmt_ok_def
           split: option.splits exec_result.splits prod.splits intro: sym)

lemma run_update_pool_effect:
  assumes "run_update_pool env m batches (db, f) = ((tot_n, dur), db', f')"
  shows "grows db db'
       \<and> (\<forall>b\<in>set batches. UPDATE_STOCK m b \<in> set (attempted db')
              \<and> (stmt_ok env (UPDATE_STOCK m b) \<longrightarrow> UPDATE_STOCK m b \<in> set (committed db')))
       \<and> tot_n = tx_total env (UPDATE_STOCK m) batches"
  using assms
proof (induction batches arbitrary: db f tot_n dur db' f')
  case Nil
  then show ?case by (simp add: grows_refl tx_total_def)
next
  case (Cons b batches)
  obtain n d err db1 f1 where w: "update_stock_records_batch env b m (db, f) = ((n, d, err), db1, f1)"
    by (cases "update_stock_records_batch env b m (db, f)") auto
  obtain t1 d1 db2 f2 where r: "run_update_pool env m batches (db1, f1) = ((t1, d1), db2, f2)"
    by (cases "run_update_pool env m batches (db1, f1)") auto
  note e = update_worker_effect [OF w]
  note ih = Cons.IH [OF r]
  from Cons.prems w r have db': "db' = db2" and tot_n: "tot_n = (if err = None then n + t1 else t1)"
    by (auto split: if_splits)
  from e(1) ih have g: "grows db db'" unfolding db' by (blast intro: grows_trans)
  from ih have g12: "grows db1 db2" by simp
  have here: "UPDATE_STOCK m b \<in> set (attempted db')
              \<and> (stmt_ok env (UPDATE_STOCK m b) \<longrightarrow> UPDATE_STOCK m b \<in> set (committed db'))"
    using e(2,3) g12 unfolding db' grows_def by blast
  have tq: "tot_n = tx_total env (UPDATE_STOCK m) (b # batches)"
  proof (cases "tx_ok env (UPDATE_STOCK m b)")
    case True
    with e(4) tot_n ih show ?thesis by (simp add: tx_total_def)
  next
    case False
    with e(5) tot_n ih show ?thesis by (auto simp add: tx_total_def)
  qed
  from g here tq ih show ?case unfolding db' by simp
qed

lemma run_insert_pool_effect:
  assumes "run_insert_pool env m batches db = ((tot_n, dur), db')"
  shows "grows db db'
       \<and> (\<forall>b\<in>set batches. INSERT_STOCK m b \<in> set (attempted db')
              \<and> (stmt_ok env (INSERT_STOCK m b) \<longrightarrow> INSERT_STOCK m b \<in> set (committed db')))
       \<and> tot_n = tx_total env (INSERT_STOCK m) batches"
  using assms
proof (induction batches arbitrary: db tot_n dur db')
  case Nil
  then show ?case by (simp add: grows_refl tx_total_def)
next
  case (Cons b batches)
  obtain n d err db1 where w: "insert_stock_records_batch env b m db = ((n, d, err), db1)"
    by (cases "insert_stock_records_batch env b m db") auto
  obtain t1 d1 db2 where r: "run_insert_pool env m batches db1 = ((t1, d1), db2)"
    by (cases "run_insert_pool env m batches db1") auto
  note e = insert_worker_effect [OF w]
  note ih = Cons.IH [OF r]
  from Cons.prems w r have db': "db' = db2" and tot_n: "tot_n = (if err = None then n + t1 else t1)"
    by (auto split: if_splits)
  from e(1) ih have g: "grows db db'" unfolding db' by (blast intro: grows_trans)
  from ih have g12: "grows db1 db2" by simp
  have here: "INSERT_STOCK m b \<in> set (attempted db')
              \<and> (stmt_ok env (INSERT_STOCK m b) \<longrightarrow> INSERT_STOCK m b \<in> set (committed db'))"
    using e(2,3) g12 unfolding db' grows_def by blast
  have tq: "tot_n = tx_total env (INSERT_STOCK m) (b # batches)"
  proof (cases "tx_ok env (INSERT_STOCK m b)")
    case True
    with e(4) tot_n ih show ?thesis by (simp add: tx_total_def)
  next
    case False
    with e(5) tot_n ih show ?thesis by (auto simp add: tx_total_def)
  qed
  from g here tq ih show ?case unfolding db' by simp
qed

lemma process_market_records_effect:
  assumes "0 < concurrency" and "0 < batch_size"
    and "process_market_records env m exist_records new_records removed batch_size concurrency db
           = (result, db')"
  shows "(\<forall>b\<in>set (batches_of batch_size exist_records).
            UPDATE_STOCK m b \<in> set (attempted db')
            \<and> (stmt_ok env (UPDATE_STOCK m b) \<longrightarrow> UPDATE_STOCK m b \<in> set (committed db')))
       \<and> (\<forall>b\<in>set (batches_of batch_size new_records).
            INSERT_STOCK m b \<in> set (attempted db')
            \<and> (stmt_ok env (INSERT_STOCK m b) \<longrightarrow> INSERT_STOCK m b \<in> set (committed db')))
       \<and> (removed \<noteq> {} \<longrightarrow>
            MARK_STOCKS_DELETED m removed \<in> set (attempted db')
            \<and> (stmt_ok env (MARK_STOCKS_DELETED m removed) \<longrightarrow>
                 MARK_STOCKS_DELETED m removed \<in> set (committed db')))
       \<and> (removed = {} \<longrightarrow>
            (\<exists>res. result = Inr res
               \<and> r_updated res = tx_total env (UPDATE_STOCK m) (batches_of batch_size exist_records)
               \<and> r_inserted res = tx_total env (INSERT_STOCK m) (batches_of batch_size new_records)))"
proof -
  obtain tu du db1 fs where u: "run_update_pool env m (batches_of batch_size exist_records) (db, [])
        = ((tu, du), db1, fs)"
    by (cases "run_update_pool env m (batches_of batch_size exist_records) (db, [])") auto
  obtain ti di db2 where i: "(if new_records \<noteq> []
          then run_insert_pool env m (batches_of batch_size new_records) db1
          else ((0, 0), db1)) = ((ti, di), db2)"
    by (cases "(if new_records \<noteq> []
          then run_insert_pool env m (batches_of batch_size new_records) db1
          else ((0, 0), db1))") auto
  obtain cnt db3 where d: "mark_stocks_as_deleted env removed m db2 = (cnt, db3)"
    by (cases "mark_stocks_as_deleted env removed m db2") auto
  note ue = run_update_pool_effect [OF u]
  have ie: "grows db1 db2
       \<and> (\<forall>b\<in>set (batches_of batch_size new_records). INSERT_STOCK m b \<in> set (attempted db2)
              \<and> (stmt_ok env (INSERT_STOCK m b) \<longrightarrow> INSERT_STOCK m b \<in> set (committed db2)))
       \<and> ti = tx_total env (INSERT_STOCK m) (batches_of batch_size new_records)"
  proof (cases "new_records = []")
    case True
    with i show ?thesis by (simp add: grows_refl batches_of.simps tx_total_def)
  next
    case False
    with i have "run_insert_pool env m (batches_of batch_size new_records) db1 = ((ti, di), db2)"
      by simp
    from run_insert_pool_effect [OF this] show ?thesis .
  qed
  have de: "grows db2 db3
       \<and> (removed \<noteq> {} \<longrightarrow>
            MARK_STOCKS_DELETED m removed \<in> set (attempted db3)
            \<and> (stmt_ok env (MARK_STOCKS_DELETED m removed) \<longrightarrow>
                 MARK_STOCKS_DELETED m removed \<in> set (committed db3)))"
  proof (cases "removed = {}")
    case True
    with d show ?thesis by (simp add: mark_stocks_as_deleted_def grows_refl)
  next
    case False
    obtain r dbx where t: "run_tx env (MARK_STOCKS_DELETED m removed) db2 = (r, dbx)"
      by (cases "run_tx env (MARK_STOCKS_DELETED m removed) db2") auto
    from d t False have "db3 = dbx" by (auto simp: mark_stocks_as_deleted_def split: sum.splits)
    with run_tx_effect(1,2,3) [OF t] show ?thesis by auto
  qed
  show ?thesis
  proof (cases "removed = {}")
    case True
    with assms u i have "result = Inr \<lparr>r_updated = tu, r_update_time = du, r_inserted = ti,
               r_insert_time = di, r_deleted = 0, r_delete_time = 0, r_failed_updates = fs\<rparr>"
      and "db' = db2"
      by (simp_all add: process_market_records_def)
    with True ue ie show ?thesis unfolding grows_def by auto
  next
    case False
    with assms u i d have "db' = db3"
      by (simp add: process_market_records_def unpack_pair_of_int_def)
    with False ue ie de show ?thesis unfolding grows_def by blast
  qed
qed

lemma batch_insert_worker_effect:
  assumes "batch_insert_worker env b db = (r, db')"
  shows "grows db db'
       \<and> fund_insert_stmt b \<in> set (attempted db')
       \<and> (stmt_ok env (fund_insert_stmt b) \<longrightarrow> fund_insert_stmt b \<in> set (committed db') \<and> (\<exists>d. r = Inr d))
       \<and> (\<not> stmt_ok env (fund_insert_stmt b) \<longrightarrow> (\<exists>e. r = Inl e))"
proof -
  obtain r0 db0' where t: "run_tx env (fund_insert_stmt b) db = (r0, db0')"
    by (cases "run_tx env (fund_insert_stmt b) db") auto
  note e = run_tx_effect [OF t]
  from assms t have "db' = db0'" and "(\<exists>e. r = Inl e) = (\<exists>e. r0 = Inl e)" and "(\<exists>d. r = Inr d) = (\<exists>n. r0 = Inr n)"
    by (auto simp: batch_insert_worker_def fund_insert_stmt_def Let_def split: sum.splits)
  with e show ?thesis by auto
qed

lemma run_fund_pool_effect:
  assumes spec: "\<And>b db r db'. worker b db = (r, db') \<Longrightarrow>
                  grows db db'
                \<and> stmt_of b \<in> set (attempted db')
                \<and> (stmt_ok env (stmt_of b) \<longrightarrow> stmt_of b \<in> set (committed db') \<and> (\<exists>d. r = Inr d))
                \<and> (\<not> stmt_ok env (stmt_of b) \<longrightarrow> (\<exists>e. r = Inl e))"
    and "run_fund_pool worker batches db = ((err, tot_d), db')"
  shows "grows db db'
       \<and> (\<forall>b\<in>set batches. stmt_of b \<in> set (attempted db')
              \<and> (stmt_ok env (stmt_of b) \<longrightarrow> stmt_of b \<in> set (committed db')))
       \<and> ((err = None) = (\<forall>b\<in>set batches. stmt_ok env (stmt_of b)))"
  using assms(2)
proof (induction batches arbitrary: db err tot_d db')
  case Nil
  then show ?case by (simp add: grows_refl)
next
  case (Cons b batches)
  obtain r db1 where w: "worker b db = (r, db1)" by (cases "worker b db") auto
  obtain err1 t1 db2 where p: "run_fund_pool worker batches db1 = ((err1, t1), db2)"
    by (cases "run_fund_pool worker batches db1") auto
  note e = spec [OF w]
  note ih = Cons.IH [OF p]
  from Cons.prems w p have db': "db' = db2"
    and err: "err = (case r of Inl x \<Rightarrow> Some x | Inr d \<Rightarrow> err1)"
    by (auto split: sum.splits)
  from e ih have g: "grows db db'" unfolding db' by (blast intro: grows_trans)
  from ih have g12: "grows db1 db2" by simp
  have here: "stmt_of b \<in> set (attempted db')
              \<and> (stmt_ok env (stmt_of b) \<longrightarrow> stmt_of b \<in> set (committed db'))"
    using e g12 unfolding db' grows_def by blast
  have errq: "(err = None) = (\<forall>b\<in>set (b # batches). stmt_ok env (stmt_of b))"
  proof (cases "stmt_ok env (stmt_of b)")
    case True
    with e obtain d where "r = Inr d" by blast
    with err ih True show ?thesis by simp
  next
    case False
    with e obtain x where "r = Inl x" by blast
    with err False show ?thesis by simp
  qed
  from g here errq ih show ?case unfolding db' by simp
qed

lemma insert_new_funds_effect:
  assumes "0 < cfg_batch_size cfg" and "0 < cfg_max_workers cfg"
    and "insert_new_funds cfg env funds db = (r, db')"
  shows "(\<forall>b\<in>set (batches_of (cfg_batch_size cfg) funds).
            fund_insert_stmt b \<in> set (attempted db')
            \<and> (stmt_ok env (fund_insert_stmt b) \<longrightarrow> fund_insert_stmt b \<in> set (committed db')))
       \<and> ((\<exists>e. r = Inl e) = (\<exists>b\<in>set (batches_of (cfg_batch_size cfg) funds).
                                  \<not> stmt_ok env (fund_insert_stmt b)))"
proof (cases "funds = []")
  case True
  with assms(3) show ?thesis
    by (auto simp add: insert_new_funds_def pooled_fund_op_def batches_of.simps)
next
  case False
  obtain err t db1 where p: "run_fund_pool (batch_insert_worker env)
        (batches_of (cfg_batch_size cfg) funds) db = ((err, t), db1)"
    by (cases "run_fund_pool (batch_insert_worker env) (batches_of (cfg_batch_size cfg) funds) db") auto
  have "grows db db1
       \<and> (\<forall>b\<in>set (batches_of (cfg_batch_size cfg) funds). fund_insert_stmt b \<in> set (attempted db1)
              \<and> (stmt_ok env (fund_insert_stmt b) \<longrightarrow> fund_insert_stmt b \<in> set (committed db1)))
       \<and> ((err = None) = (\<forall>b\<in>set (batches_of (cfg_batch_size cfg) funds). stmt_ok env (fund_insert_stmt b)))"
    by (rule run_fund_pool_effect [OF _ p]) (rule batch_insert_worker_effect)
  moreover from assms False p have "db' = db1" and "(\<exists>e. r = Inl e) = (err \<noteq> None)"
    by (auto simp: insert_new_funds_def pooled_fund_op_def split: option.splits)
  ultimately show ?thesis by auto
qed

text \<open>
  Claim C5 says that a batch whose transaction fails is recorded as failed, does not keep
  the other batches of the same or of another operation kind from being applied, and is
  not propagated as an exception. The funds engine re-raises: the worker logs and raises,
  \<open>insert_new_funds\<close> logs and raises again. Here the first insert batch fails at
  commit; the second insert batch is still committed, the exception leaves
  \<open>execute_batch_updates\<close>, and the update for code 000003 is never sent.
\<close>

theorem C5_fund_failure_propagates_counterexample:
  "execute_batch_updates small_cfg flaky_db
     [(''000001'', ''open'', OpenFund, Some 1), (''000002'', ''money'', MoneyFund, Some 2),
      (''000003'', ''cash'', MoneyFund, Some 2)]
     {''000001'', ''000002''} {} {''000003''} db0 =
   (Inl db_error,
    \<lparr>attempted = [INSERT_FUNDS_BATCH [(''000001'', ''open'', OpenFund, Some 1, ''L'')],
                  INSERT_FUNDS_BATCH [(''000002'', ''money'', MoneyFund, Some 2, ''L'')]],
     committed = [INSERT_FUNDS_BATCH [(''000002'', ''money'', MoneyFund, Some 2, ''L'')]]\<rparr>)"
  by code_simp

text \<open>
  The aggregate counts a batch with its full size as soon as its transaction commits.
  When the bulk statement of a batch raises, the worker falls back to one statement per
  row inside the same transaction; here every statement raises, nothing is applied, and
  the aggregate still reports two updated and one inserted record.
\<close>

lemma aggregate_counts_unapplied_batches:
  "(case process_market_records raising_db ''A''
           [stock_row ''600000'', stock_row ''600001''] [stock_row ''600002''] {} 1 2 db0 of
      (Inl e, db') \<Rightarrow> False
    | (Inr res, db') \<Rightarrow> r_updated res = 2 \<and> r_inserted res = 1 \<and> committed db' = [])"
  by code_simp

text \<open>
  Claim C5, amended. Stocks engine (\<open>process_market_records\<close>, with a positive batch
  size and worker count): a worker whose transaction cannot be entered or committed
  returns \<open>(0, duration, error)\<close> and raises nothing; every update batch and every
  insert batch is sent, whatever happens to the others, and is committed when its own
  statement is in order; when there are symbols to remove the removal statement is sent,
  and is committed when it is in order; when there is nothing to remove the aggregate
  comes back, and its update count (insert count) is the summed size of the update
  (insert) batches whose statement was in order, provided no update (insert) batch
  statement raised when executed. Funds engine (\<open>insert_new_funds\<close>): every insert
  batch is sent and is committed when its own statement is in order, and the call raises
  exactly when some batch failed.
\<close>

theorem C5_batch_failure_isolation:
  assumes "0 < concurrency" and "0 < batch_size"
    and "process_market_records env m exist_records new_records removed batch_size concurrency db
           = (result, db')"
    and "0 < cfg_batch_size cfg" and "0 < cfg_max_workers cfg"
    and "insert_new_funds cfg fenv funds fdb = (fresult, fdb')"
  shows "(\<not> tx_ok env (UPDATE_STOCK m b) \<longrightarrow>
            (\<exists>d e. fst (update_stock_records_batch env b m (wdb, wfailed)) = (0, d, Some e)))
       \<and> (\<not> tx_ok env (INSERT_STOCK m b) \<longrightarrow>
            (\<exists>d e. fst (insert_stock_records_batch env b m wdb) = (0, d, Some e)))
       \<and> (\<forall>b\<in>set (batches_of batch_size exist_records).
            UPDATE_STOCK m b \<in> set (attempted db')
            \<and> (stmt_ok env (UPDATE_STOCK m b) \<longrightarrow> UPDATE_STOCK m b \<in> set (committed db')))
       \<and> (\<forall>b\<in>set (batches_of batch_size new_records).
            INSERT_STOCK m b \<in> set (attempted db')
            \<and> (stmt_ok env (INSERT_STOCK m b) \<longrightarrow> INSERT_STOCK m b \<in> set (committed db')))
       \<and> (removed \<noteq> {} \<longrightarrow>
            MARK_STOCKS_DELETED m removed \<in> set (attempted db')
            \<and> (stmt_ok env (MARK_STOCKS_DELETED m removed) \<longrightarrow>
                 MARK_STOCKS_DELETED m removed \<in> set (committed db')))
       \<and> (removed = {} \<longrightarrow>
            (\<exists>res. result = Inr res
               \<and> (bulk_executes env (UPDATE_STOCK m) (batches_of batch_size exist_records) \<longrightarrow>
                    r_updated res = ok_total env (UPDATE_STOCK m) (batches_of batch_size exist_records))
               \<and> (bulk_executes env (INSERT_STOCK m) (batches_of batch_size new_records) \<longrightarrow>
                    r_inserted res = ok_total env (INSERT_STOCK m) (batches_of batch_size new_records))))
       \<and> (\<forall>b\<in>set (batches_of (cfg_batch_size cfg) funds).
            fund_insert_stmt b \<in> set (attempted fdb')
            \<and> (stmt_ok fenv (fund_insert_stmt b) \<longrightarrow> fund_insert_stmt b \<in> set (committed fdb')))
       \<and> ((\<exists>e. fresult = Inl e) = (\<exists>b\<in>set (batches_of (cfg_batch_size cfg) funds).
                                  \<not> stmt_ok fenv (fund_insert_stmt b)))"
proof -
  note s = process_market_records_effect [OF assms(1-3)]
  note f = insert_new_funds_effect [OF assms(4-6)]
  have wu: "\<not> tx_ok env (UPDATE_STOCK m b) \<longrightarrow>
            (\<exists>d e. fst (update_stock_records_batch env b m (wdb, wfailed)) = (0, d, Some e))"
  proof
    assume bad: "\<not> tx_ok env (UPDATE_STOCK m b)"
    obtain n d err dbw fw where w: "update_stock_records_batch env b m (wdb, wfailed) = ((n, d, err), dbw, fw)"
      by (cases "update_stock_records_batch env b m (wdb, wfailed)") auto
    from update_worker_effect(5) [OF w bad] w
    show "\<exists>d e. fst (update_stock_records_batch env b m (wdb, wfailed)) = (0, d, Some e)" by auto
  qed
  have wi: "\<not> tx_ok env (INSERT_STOCK m b) \<longrightarrow>
            (\<exists>d e. fst (insert_stock_records_batch env b m wdb) = (0, d, Some e))"
  proof
    assume bad: "\<not> tx_ok env (INSERT_STOCK m b)"
    obtain n d err dbw where w: "insert_stock_records_batch env b m wdb = ((n, d, err), dbw)"
      by (cases "insert_stock_records_batch env b m wdb") auto
    from insert_worker_effect(5) [OF w bad] w
    show "\<exists>d e. fst (insert_stock_records_batch env b m wdb) = (0, d, Some e)" by auto
  qed
  have agg: "removed = {} \<longrightarrow>
            (\<exists>res. result = Inr res
               \<and> (bulk_executes env (UPDATE_STOCK m) (batches_of batch_size exist_records) \<longrightarrow>
                    r_updated res = ok_total env (UPDATE_STOCK m) (batches_of batch_size exist_records))
               \<and> (bulk_executes env (INSERT_STOCK m) (batches_of batch_size new_records) \<longrightarrow>
                    r_inserted res = ok_total env (INSERT_STOCK m) (batches_of batch_size new_records)))"
    using s [THEN conjunct2, THEN conjunct2, THEN conjunct2] by (auto simp: bulk_total)
  from s have s1: "\<forall>b\<in>set (batches_of batch_size exist_records).
            UPDATE_STOCK m b \<in> set (attempted db')
            \<and> (stmt_ok env (UPDATE_STOCK m b) \<longrightarrow> UPDATE_STOCK m b \<in> set (committed db'))"
    by (rule conjunct1)
  from s have s2: "\<forall>b\<in>set (batches_of batch_size new_records).
            INSERT_STOCK m b \<in> set (attempted db')
            \<and> (stmt_ok env (INSERT_STOCK m b) \<longrightarrow> INSERT_STOCK m b \<in> set (committed db'))"
    by (rule conjunct2 [THEN conjunct1])
  from s have s3: "removed \<noteq> {} \<longrightarrow>
            MARK_STOCKS_DELETED m removed \<in> set (attempted db')
            \<and> (stmt_ok env (MARK_STOCKS_DELETED m removed) \<longrightarrow>
                 MARK_STOCKS_DELETED m removed \<in> set (committed db'))"
    by (rule conjunct2 [THEN conjunct2, THEN conjunct1])
  from f have f1: "\<forall>b\<in>set (batches_of (cfg_batch_size cfg) funds).
            fund_insert_stmt b \<in> set (attempted fdb')
            \<and> (stmt_ok fenv (fund_insert_stmt b) \<longrightarrow> fund_insert_stmt b \<in> set (committed fdb'))"
    by (rule conjunct1)
  from f have f2: "(\<exists>e. fresult = Inl e) = (\<exists>b\<in>set (batches_of (cfg_batch_size cfg) funds).
                                  \<not> stmt_ok fenv (fund_insert_stmt b))"
    by (rule conjunct2)
  from wu wi s1 s2 s3 agg f1 f2 show ?thesis by (intro conjI)
qed

theorem C5_batch_failure_isolation_witness:
  "\<not> tx_ok flaky_db (UPDATE_STOCK ''A'' [stock_row ''600000''])
   \<and> (\<exists>d e. fst (update_stock_records_batch flaky_db [stock_row ''600000''] ''A'' (db0, []))
              = (0, d, Some e))
   \<and> UPDATE_STOCK ''A'' [stock_row ''600001'']
       \<in> set (committed (snd (process_market_records flaky_db ''A''
                [stock_row ''600000'', stock_row ''600001''] [stock_row ''600002''] {} 1 2 db0)))
   \<and> INSERT_STOCK ''A'' [stock_row ''600002'']
       \<in> set (committed (snd (process_market_records flaky_db ''A''
                [stock_row ''600000'', stock_row ''600001''] [stock_row ''600002''] {} 1 2 db0)))
   \<and> (\<exists>res. fst (process_market_records flaky_db ''A''
                [stock_row ''600000'', stock_row ''600001''] [stock_row ''600002''] {} 1 2 db0) = Inr res
          \<and> r_updated res = 1 \<and> r_inserted res = 1)
   \<and> MARK_STOCKS_DELETED ''A'' {''600003''}
       \<in> set (committed (snd (process_market_records flaky_db ''A''
                [stock_row ''600000'', stock_row ''600001''] [stock_row ''600002''] {''600003''} 1 2 db0)))
   \<and> fund_insert_stmt [(''000002'', ''money'', MoneyFund, Some 2)]
       \<in> set (committed (snd (insert_new_funds small_cfg flaky_db
                [(''000001'', ''open'', OpenFund, Some 1), (''000002'', ''money'', MoneyFund, Some 2)] db0)))
   \<and> (\<exists>e. fst (insert_new_funds small_cfg flaky_db
                [(''000001'', ''open'', OpenFund, Some 1), (''000002'', ''money'', MoneyFund, Some 2)] db0) = Inl e)"
proof -
  let ?p = "process_market_records flaky_db ''A''
                [stock_row ''600000'', stock_row ''600001''] [stock_row ''600002''] {} 1 2 db0"
  let ?q = "process_market_records flaky_db ''A''
                [stock_row ''600000'', stock_row ''600001''] [stock_row ''600002''] {''600003''} 1 2 db0"
  let ?i = "insert_new_funds small_cfg flaky_db
                [(''000001'', ''open'', OpenFund, Some 1), (''000002'', ''money'', MoneyFund, Some 2)] db0"
  have c1: "(0::nat) < 2" and c2: "(0::nat) < 1" by simp_all
  have c3: "0 < cfg_batch_size small_cfg" and c4: "0 < cfg_max_workers small_cfg"
    by (simp_all add: small_cfg_def)
  have e1: "?p = (fst ?p, snd ?p)" and e2: "?i = (fst ?i, snd ?i)" and e3: "?q = (fst ?q, snd ?q)"
    by simp_all
  note t = C5_batch_failure_isolation [OF c1 c2 e1 c3 c4 e2,
             of "[stock_row ''600000'']" db0 "[]"]
  note t' = C5_batch_failure_isolation [OF c1 c2 e3 c3 c4 e2]
  have bu: "batches_of 1 [stock_row ''600000'', stock_row ''600001'']
              = [[stock_row ''600000''], [stock_row ''600001'']]" by code_simp
  have bi: "batches_of 1 [stock_row ''600002''] = [[stock_row ''600002'']]" by code_simp
  have bf: "batches_of (cfg_batch_size small_cfg)
              [(''000001'', ''open'', OpenFund, Some 1), (''000002'', ''money'', MoneyFund, Some (2::real))]
              = [[(''000001'', ''open'', OpenFund, Some 1)], [(''000002'', ''money'', MoneyFund, Some 2)]]"
    by code_simp
  have k0: "\<not> tx_ok flaky_db (UPDATE_STOCK ''A'' [stock_row ''600000''])" by code_simp
  have k1: "stmt_ok flaky_db (UPDATE_STOCK ''A'' [stock_row ''600001''])" by code_simp
  have k2: "stmt_ok flaky_db (INSERT_STOCK ''A'' [stock_row ''600002''])" by code_simp
  have k3: "stmt_ok flaky_db (fund_insert_stmt [(''000002'', ''money'', MoneyFund, Some 2)])" by code_simp
  have k4: "\<not> stmt_ok flaky_db (fund_insert_stmt [(''000001'', ''open'', OpenFund, Some 1)])" by code_simp
  have k5: "stmt_ok flaky_db (MARK_STOCKS_DELETED ''A'' {''600003''})" by code_simp
  have k6: "bulk_executes flaky_db (UPDATE_STOCK ''A'') [[stock_row ''600000''], [stock_row ''600001'']]"
    by code_simp
  have k7: "bulk_executes flaky_db (INSERT_STOCK ''A'') [[stock_row ''600002'']]" by code_simp
  have k8: "ok_total flaky_db (UPDATE_STOCK ''A'') [[stock_row ''600000''], [stock_row ''600001'']] = 1"
    by code_simp
  have k9: "ok_total flaky_db (INSERT_STOCK ''A'') [[stock_row ''600002'']] = 1" by code_simp
  have k10: "{''600003''} \<noteq> ({} :: string set)" by simp
  from t [THEN conjunct1] k0
  have w0: "\<exists>d e. fst (update_stock_records_batch flaky_db [stock_row ''600000''] ''A'' (db0, []))
              = (0, d, Some e)" by simp
  from t [THEN conjunct2, THEN conjunct2, THEN conjunct1] bu k1
  have w1: "UPDATE_STOCK ''A'' [stock_row ''600001''] \<in> set (committed (snd ?p))" by simp
  from t [THEN conjunct2, THEN conjunct2, THEN conjunct2, THEN conjunct1] bi k2
  have w2: "INSERT_STOCK ''A'' [stock_row ''600002''] \<in> set (committed (snd ?p))" by simp
  from t [THEN conjunct2, THEN conjunct2, THEN conjunct2, THEN conjunct2, THEN conjunct2,
          THEN conjunct1] bu bi k6 k7 k8 k9
  have w3: "\<exists>res. fst ?p = Inr res \<and> r_updated res = 1 \<and> r_inserted res = 1"
    by simp
  from t' [THEN conjunct2, THEN conjunct2, THEN conjunct2, THEN conjunct2, THEN conjunct1] k5 k10
  have w6: "MARK_STOCKS_DELETED ''A'' {''600003''} \<in> set (committed (snd ?q))" by simp
  from t [THEN conjunct2, THEN conjunct2, THEN conjunct2, THEN conjunct2, THEN conjunct2,
          THEN conjunct2, THEN conjunct1] bf k3
  have w4: "fund_insert_stmt [(''000002'', ''money'', MoneyFund, Some 2)] \<in> set (committed (snd ?i))"
    by simp
  from t [THEN conjunct2, THEN conjunct2, THEN conjunct2, THEN conjunct2, THEN conjunct2,
          THEN conjunct2, THEN conjunct2] bf k4
  have w5: "\<exists>e. fst ?i = Inl e" by simp
  from k0 w0 w1 w2 w3 w6 w4 w5 show ?thesis by blast
qed

section \<open>The diff of canonical and existing keys (claim C2)\<close>

text \<open>Chunking does not change what is handed to the batch engine for a market.\<close>

lemma stock_diff_eq:
  "stock_diff cleaned existing_symbols =
     (filter (symbol_in existing_symbols) cleaned,
      filter (\<lambda>r. \<not> symbol_in existing_symbols r) cleaned,
      existing_symbols - set (List.map_filter symbol cleaned))"
  by (simp add: stock_diff_def classify_records_eq)

lemma keys_of_existing:
  "set (List.map_filter symbol (filter (symbol_in existing_symbols) cleaned))
     = set (List.map_filter symbol cleaned) \<inter> existing_symbols"
  by (auto simp: List.map_filter_def symbol_in_def split: option.splits)

lemma keys_of_new:
  "set (List.map_filter symbol (filter (\<lambda>r. \<not> symbol_in existing_symbols r) cleaned))
     = set (List.map_filter symbol cleaned) - existing_symbols"
  by (auto simp: List.map_filter_def symbol_in_def split: option.splits)

text \<open>
  Claim C2: for the key set of the canonical records and any set of existing keys, the
  diff gives ToInsert = canonical - existing, ToRemove = existing - canonical and
  ToUpdate = canonical Int existing; the three sets are pairwise disjoint and every
  canonical key is in exactly one of ToInsert and ToUpdate. For funds the diff is
  \<open>analyze_data_differences\<close>. For stocks it is the part of
  \<open>process_and_sync_stock_data\<close> that builds \<open>exist_records\<close>, \<open>new_records\<close>
  and \<open>removed_symbols\<close>: the symbols of \<open>new_records\<close> are ToInsert, those of
  \<open>exist_records\<close> are ToUpdate, and \<open>removed_symbols\<close> is ToRemove. And these are
  what a market's sync acts on: when the fetch returned rows and cleaning succeeded, the
  batches of \<open>exist_records\<close> are sent as updates, the batches of \<open>new_records\<close> as
  inserts, the removal statement is sent for exactly \<open>removed_symbols\<close> when that set
  is not empty, and no other removal statement is sent.
\<close>

theorem C2_diff_partition:
  "(case analyze_data_differences final_funds existing_codes of
      (new_codes, removed_codes, update_codes) \<Rightarrow>
        new_codes = set (map fst final_funds) - existing_codes
      \<and> removed_codes = existing_codes - set (map fst final_funds)
      \<and> update_codes = set (map fst final_funds) \<inter> existing_codes
      \<and> new_codes \<inter> update_codes = {}
      \<and> new_codes \<inter> removed_codes = {}
      \<and> update_codes \<inter> removed_codes = {}
      \<and> new_codes \<union> update_codes = set (map fst final_funds))
   \<and> (case stock_diff cleaned existing_symbols of
      (exist_records, new_records, removed_symbols) \<Rightarrow>
        set (List.map_filter symbol new_records)
          = set (List.map_filter symbol cleaned) - existing_symbols
      \<and> removed_symbols = existing_symbols - set (List.map_filter symbol cleaned)
      \<and> set (List.map_filter symbol exist_records)
          = set (List.map_filter symbol cleaned) \<inter> existing_symbols
      \<and> set (List.map_filter symbol new_records) \<inter> set (List.map_filter symbol exist_records) = {}
      \<and> set (List.map_filter symbol new_records) \<inter> removed_symbols = {}
      \<and> set (List.map_filter symbol exist_records) \<inter> removed_symbols = {}
      \<and> set (List.map_filter symbol new_records) \<union> set (List.map_filter symbol exist_records)
          = set (List.map_filter symbol cleaned))
   \<and> (safely_get_market_data (conf_get_data_func conf) (stock_max_retry env) = Inr (Some raw)
        \<and> raw \<noteq> [] \<and> conf_clean_func conf = Some clean_func \<and> clean_func raw = Inr cleaned0
        \<and> 0 < conf_concurrency conf \<and> 0 < stock_batch_size env \<longrightarrow>
      (case stock_diff (dropna cleaned0) market_symbols of
         (exist_records, new_records, removed_symbols) \<Rightarrow>
           (\<forall>b\<in>set (batches_of (stock_batch_size env) exist_records).
              UPDATE_STOCK (conf_market_name conf) b
                \<in> set (attempted (snd (process_and_sync_stock_data env conf market_symbols db))))
         \<and> (\<forall>b\<in>set (batches_of (stock_batch_size env) new_records).
              INSERT_STOCK (conf_market_name conf) b
                \<in> set (attempted (snd (process_and_sync_stock_data env conf market_symbols db))))
         \<and> (removed_symbols \<noteq> {} \<longrightarrow>
              MARK_STOCKS_DELETED (conf_market_name conf) removed_symbols
                \<in> set (attempted (snd (process_and_sync_stock_data env conf market_symbols db))))
         \<and> (\<forall>stmt\<in>set (attempted (snd (process_and_sync_stock_data env conf market_symbols db))).
              is_mark stmt \<longrightarrow>
                stmt \<in> set (attempted db)
                \<or> removed_symbols \<noteq> {}
                  \<and> stmt = MARK_STOCKS_DELETED (conf_market_name conf) removed_symbols)))"
proof (intro conjI impI)
  show "case analyze_data_differences final_funds existing_codes of
      (new_codes, removed_codes, update_codes) \<Rightarrow>
        new_codes = set (map fst final_funds) - existing_codes
      \<and> removed_codes = existing_codes - set (map fst final_funds)
      \<and> update_codes = set (map fst final_funds) \<inter> existing_codes
      \<and> new_codes \<inter> update_codes = {}
      \<and> new_codes \<inter> removed_codes = {}
      \<and> update_codes \<inter> removed_codes = {}
      \<and> new_codes \<union> update_codes = set (map fst final_funds)"
    unfolding analyze_data_differences_def Let_def by auto
next
  show "case stock_diff cleaned existing_symbols of
      (exist_records, new_records, removed_symbols) \<Rightarrow>
        set (List.map_filter symbol new_records)
          = set (List.map_filter symbol cleaned) - existing_symbols
      \<and> removed_symbols = existing_symbols - set (List.map_filter symbol cleaned)
      \<and> set (List.map_filter symbol exist_records)
          = set (List.map_filter symbol cleaned) \<inter> existing_symbols
      \<and> set (List.map_filter symbol new_records) \<inter> set (List.map_filter symbol exist_records) = {}
      \<and> set (List.map_filter symbol new_records) \<inter> removed_symbols = {}
      \<and> set (List.map_filter symbol exist_records) \<inter> removed_symbols = {}
      \<and> set (List.map_filter symbol new_records) \<union> set (List.map_filter symbol exist_records)
          = set (List.map_filter symbol cleaned)"
    unfolding stock_diff_eq split keys_of_existing keys_of_new by blast
next
  assume h: "safely_get_market_data (conf_get_data_func conf) (stock_max_retry env) = Inr (Some raw)
        \<and> raw \<noteq> [] \<and> conf_clean_func conf = Some clean_func \<and> clean_func raw = Inr cleaned0
        \<and> 0 < conf_concurrency conf \<and> 0 < stock_batch_size env"
  let ?db' = "snd (process_and_sync_stock_data env conf market_symbols db)"
  obtain ex new rem where sd: "stock_diff (dropna cleaned0) market_symbols = (ex, new, rem)"
    by (cases "stock_diff (dropna cleaned0) market_symbols") auto
  obtain result db1 where pm: "process_market_records (stock_db env) (conf_market_name conf)
        ex new rem (stock_batch_size env) (conf_concurrency conf) db = (result, db1)"
    by (cases "process_market_records (stock_db env) (conf_market_name conf)
        ex new rem (stock_batch_size env) (conf_concurrency conf) db") auto
  from h sd pm have db': "?db' = db1"
    by (cases result) (simp_all add: process_and_sync_stock_data_def)
  from h have c: "0 < conf_concurrency conf" and b: "0 < stock_batch_size env" by simp_all
  note e = process_market_records_effect [OF c b pm]
  note k = process_market_records_marks [OF pm]
  from e have e1: "\<forall>b\<in>set (batches_of (stock_batch_size env) ex).
      UPDATE_STOCK (conf_market_name conf) b \<in> set (attempted db1)"
    by blast
  from e have e2: "\<forall>b\<in>set (batches_of (stock_batch_size env) new).
      INSERT_STOCK (conf_market_name conf) b \<in> set (attempted db1)"
    by blast
  from e have e3: "rem \<noteq> {} \<longrightarrow>
      MARK_STOCKS_DELETED (conf_market_name conf) rem \<in> set (attempted db1)"
    by blast
  from e1 e2 e3 k
  show "case stock_diff (dropna cleaned0) market_symbols of
         (exist_records, new_records, removed_symbols) \<Rightarrow>
           (\<forall>b\<in>set (batches_of (stock_batch_size env) exist_records).
              UPDATE_STOCK (conf_market_name conf) b \<in> set (attempted ?db'))
         \<and> (\<forall>b\<in>set (batches_of (stock_batch_size env) new_records).
              INSERT_STOCK (conf_market_name conf) b \<in> set (attempted ?db'))
         \<and> (removed_symbols \<noteq> {} \<longrightarrow>
              MARK_STOCKS_DELETED (conf_market_name conf) removed_symbols \<in> set (attempted ?db'))
         \<and> (\<forall>stmt\<in>set (attempted ?db').
              is_mark stmt \<longrightarrow>
                stmt \<in> set (attempted db)
                \<or> removed_symbols \<noteq> {}
                  \<and> stmt = MARK_STOCKS_DELETED (conf_market_name conf) removed_symbols)"
    unfolding sd db' by simp
qed

theorem C2_diff_partition_witness:
  "safely_get_market_data (conf_get_data_func market_A) (stock_max_retry two_market_env)
     = Inr (Some [stock_row ''600001''])
   \<and> stock_diff (dropna [stock_row ''600001'']) {''600000''}
       = ([], [stock_row ''600001''], {''600000''})
   \<and> INSERT_STOCK ''A'' [stock_row ''600001'']
       \<in> set (attempted (snd (process_and_sync_stock_data two_market_env market_A {''600000''} db0)))
   \<and> MARK_STOCKS_DELETED ''A'' {''600000''}
       \<in> set (attempted (snd (process_and_sync_stock_data two_market_env market_A {''600000''} db0)))
   \<and> MARK_STOCKS_DELETED ''A'' {''600001''}
       \<notin> set (attempted (snd (process_and_sync_stock_data two_market_env market_A {''600000''} db0)))"
proof -
  let ?db' = "snd (process_and_sync_stock_data two_market_env market_A {''600000''} db0)"
  have h1: "safely_get_market_data (conf_get_data_func market_A) (stock_max_retry two_market_env)
     = Inr (Some [stock_row ''600001''])" by code_simp
  have h2: "[stock_row ''600001''] \<noteq> []" by simp
  have h3: "conf_clean_func market_A = Some (\<lambda>df. Inr df)" by (simp add: market_A_def)
  have h4: "(\<lambda>df. Inr df) [stock_row ''600001''] = (Inr [stock_row ''600001''] :: py_exn + stock_rec list)"
    by simp
  have h5: "0 < conf_concurrency market_A" by (simp add: market_A_def)
  have h6: "0 < stock_batch_size two_market_env" by (simp add: two_market_env_def)
  have sd: "stock_diff (dropna [stock_row ''600001'']) {''600000''}
       = ([], [stock_row ''600001''], {''600000''})" by code_simp
  have bs: "batches_of (stock_batch_size two_market_env) [stock_row ''600001'']
       = [[stock_row ''600001'']]" by code_simp
  have nm: "conf_market_name market_A = ''A''" by (simp add: market_A_def)
  have a0: "attempted db0 = []" by (simp add: db0_def)
  have ne: "{''600000''} \<noteq> ({} :: string set)" by simp
  have other: "MARK_STOCKS_DELETED ''A'' {''600001''} \<noteq> MARK_STOCKS_DELETED ''A'' {''600000''}"
    by simp
  from h1 h2 h3 h4 h5 h6
  have h: "safely_get_market_data (conf_get_data_func market_A) (stock_max_retry two_market_env)
             = Inr (Some [stock_row ''600001''])
        \<and> [stock_row ''600001''] \<noteq> [] \<and> conf_clean_func market_A = Some (\<lambda>df. Inr df)
        \<and> (\<lambda>df. Inr df) [stock_row ''600001''] = (Inr [stock_row ''600001''] :: py_exn + stock_rec list)
        \<and> 0 < conf_concurrency market_A \<and> 0 < stock_batch_size two_market_env"
    by (intro conjI)
  note t = C2_diff_partition [where conf = market_A and env = two_market_env
             and raw = "[stock_row ''600001'']" and clean_func = "\<lambda>df. Inr df"
             and cleaned0 = "[stock_row ''600001'']" and market_symbols = "{''600000''}"
             and db = db0, THEN conjunct2, THEN conjunct2, THEN mp, OF h]
  from t have t': "(\<forall>b\<in>set [[stock_row ''600001'']]. INSERT_STOCK ''A'' b \<in> set (attempted ?db'))
       \<and> MARK_STOCKS_DELETED ''A'' {''600000''} \<in> set (attempted ?db')
       \<and> (\<forall>stmt\<in>set (attempted ?db'). is_mark stmt \<longrightarrow> stmt = MARK_STOCKS_DELETED ''A'' {''600000''})"
    unfolding sd nm a0 using ne by (simp add: bs)
  from t' have w1: "INSERT_STOCK ''A'' [stock_row ''600001''] \<in> set (attempted ?db')" by simp
  from t' have w2: "MARK_STOCKS_DELETED ''A'' {''600000''} \<in> set (attempted ?db')" by simp
  from t' other have w3: "MARK_STOCKS_DELETED ''A'' {''600001''} \<notin> set (attempted ?db')"
    by (metis is_mark.simps(1))
  from h1 sd w1 w2 w3 show ?thesis by (intro conjI)
qed

section \<open>Independence of the markets (claim C6)\<close>

text \<open>A market whose fetch gives nothing is counted and the loop goes on to the next one.\<close>

lemma market_get_loop_exhausted_skips:
  assumes "safely_get_market_data (conf_get_data_func conf) (stock_max_retry env) = Inr None"
    and "conf_market_open conf"
  shows "collect_markets env existing_symbols_map (conf # confs) (processed, skipped) db =
         collect_markets env existing_symbols_map confs (processed + 1, skipped) db"
  using assms by (simp add: process_and_sync_stock_data_def)

text \<open>
  Claim C6: a failure in one market's fetch or database sync does not keep the remaining
  markets from being fetched and synced. This holds for a failed fetch (third run below:
  market A's fetch fails, HK is synced). It does not hold for the sync. In the first run
  market A has a symbol to remove: the removal is executed, then unpacking the integer
  returned by \<open>mark_stocks_as_deleted\<close> raises TypeError, which leaves the loop; HK
  is never fetched and the run reports failure. In the second run market A has no
  cleaning function (the factory registers none), and calling it raises TypeError with
  the same effect.
\<close>

theorem C6_removed_symbols_abort_run:
  "stock_sync_task_runner two_market_env db0 =
     (Inr (FailureDict (StrOf TypeError)),
      \<lparr>attempted = [GET_EXISTING_SYMBOLS, INSERT_STOCK ''A'' [stock_row ''600001''],
                    MARK_STOCKS_DELETED ''A'' {''600000''}],
       committed = [INSERT_STOCK ''A'' [stock_row ''600001''],
                    MARK_STOCKS_DELETED ''A'' {''600000''}]\<rparr>)
   \<and> stock_sync_task_runner factory_env db0 =
     (Inr (FailureDict (StrOf TypeError)), \<lparr>attempted = [GET_EXISTING_SYMBOLS], committed = []\<rparr>)
   \<and> stock_sync_task_runner fetch_fail_env db0 =
     (Inr (SuccessDict 2 0),
      \<lparr>attempted = [GET_EXISTING_SYMBOLS, UPDATE_STOCK ''HK'' [stock_row ''00700'']],
       committed = [UPDATE_STOCK ''HK'' [stock_row ''00700'']]\<rparr>)"
  by code_simp

section \<open>What a run returns (claim C7)\<close>


text \<open>
  A stocks run does not always return either. An upstream call that is still running
  when the alarm goes off ends the process: the run returns nothing and raises nothing,
  and no later market is looked at.
\<close>

lemma alarm_ends_run:
  "run_stocksync_task alarm_env db0 =
     (Inl KilledByAlarm, \<lparr>attempted = [GET_EXISTING_SYMBOLS], committed = []\<rparr>)"
  by code_simp









text \<open>The template run of the base class returns a result on every path.\<close>

lemma run_always_returns: "\<exists>r. run P = Inr r"
  by (simp add: run_def split: sum.splits)

end
